theory Spec2Isabelle
  imports Main "HOL-Library.Word"
begin

section \<open>The DeepfakeVerification registry (contracts/DeepfakeVerification.sol)\<close>

text \<open>
  A shallow embedding of the Solidity contract \<^verbatim>\<open>DeepfakeVerification\<close>.
  Storage is a record that every external function takes and returns; a \<^verbatim>\<open>require\<close>
  that fails is the value \<open>Inl (Revert msg)\<close> with the message of the source, and the
  overflow check that Solidity 0.8 compiles into \<^verbatim>\<open>x++\<close> is \<open>Inl Panic\<close>.
  Solidity mappings are total with a zero default, so they are total functions here.
  The two EVM primitives the contract calls, \<^verbatim>\<open>keccak256\<close> and \<^verbatim>\<open>ecrecover\<close>, are
  parameters of the model: every theorem holds for whatever functions they are.
  Events are not storage and are left out.
\<close>

subsection \<open>Value types\<close>

type_synonym address = "160 word"
type_synonym bytes32 = "256 word"
type_synonym uint256 = "256 word"
type_synonym byte = "8 word"

datatype failure = Revert string | Panic

subsection \<open>Structs\<close>

text \<open>
  Field \<^verbatim>\<open>owner\<close> of the struct is \<open>doc_owner\<close>: the state variable \<^verbatim>\<open>owner\<close> of the
  contract keeps the name.
\<close>

record DIDDocument =
  doc_owner :: address
  did :: string
  publicKeyBase58 :: string
  isActive :: bool
  createdAt :: uint256
  updatedAt :: uint256

record VerificationResult =
  imageHash :: bytes32
  subjectDid :: string
  issuerDid :: string
  isReal :: bool
  confidence :: uint256
  timestamp :: uint256
  credentialHash :: bytes32

text \<open>Field \<^verbatim>\<open>timestamp\<close> of \<^verbatim>\<open>ZKProof\<close> is \<open>proofTimestamp\<close>.\<close>

record ZKProof =
  proofHash :: bytes32
  publicInputHash :: bytes32
  isValid :: bool
  proofTimestamp :: uint256

subsection \<open>State variables\<close>

record registry =
  didDocuments :: "address \<Rightarrow> DIDDocument"
  didToAddress :: "string \<Rightarrow> address"
  verificationResults :: "bytes32 \<Rightarrow> VerificationResult"
  zkProofs :: "bytes32 \<Rightarrow> ZKProof"
  authorizedIssuers :: "address \<Rightarrow> bool"
  owner :: address
  oracleSigner :: address
  totalDIDs :: uint256
  totalVerifications :: uint256

text \<open>What a call sees of its transaction: \<^verbatim>\<open>msg.sender\<close> and \<^verbatim>\<open>block.timestamp\<close>.\<close>

record env =
  msg_sender :: address
  block_timestamp :: uint256

text \<open>
  The EVM primitives. \<^verbatim>\<open>ecrecover(hash, v, r, s)\<close> returns the zero address when the
  signature is not one it can recover from.
\<close>

record crypto =
  keccak256 :: "byte list \<Rightarrow> bytes32"
  ecrecover :: "bytes32 \<Rightarrow> byte \<Rightarrow> bytes32 \<Rightarrow> bytes32 \<Rightarrow> address"

text \<open>The zero values of unset mapping entries.\<close>

definition zeroDIDDocument :: DIDDocument where
  "zeroDIDDocument = \<lparr>doc_owner = 0, did = [], publicKeyBase58 = [], isActive = False,
     createdAt = 0, updatedAt = 0\<rparr>"

definition zeroVerificationResult :: VerificationResult where
  "zeroVerificationResult = \<lparr>imageHash = 0, subjectDid = [], issuerDid = [], isReal = False,
     confidence = 0, timestamp = 0, credentialHash = 0\<rparr>"

definition zeroZKProof :: ZKProof where
  "zeroZKProof = \<lparr>proofHash = 0, publicInputHash = 0, isValid = False, proofTimestamp = 0\<rparr>"

subsection \<open>Checked arithmetic and byte encodings\<close>

text \<open>\<^verbatim>\<open>x++\<close> on a \<^verbatim>\<open>uint256\<close> under Solidity 0.8: a panic at \<open>2\<^sup>2\<^sup>5\<^sup>6 - 1\<close>.\<close>

definition checked_inc :: "uint256 \<Rightarrow> failure + uint256" where
  "checked_inc x = (if x = - 1 then Inl Panic else Inr (x + 1))"

text \<open>The 32 bytes of a word, most significant first, as \<^verbatim>\<open>abi.encodePacked\<close> lays them out.\<close>

definition bytes32_bytes :: "bytes32 \<Rightarrow> byte list" where
  "bytes32_bytes w = map (\<lambda>i. ucast (drop_bit (8 * (31 - i)) w)) [0..<32]"

text \<open>\<^verbatim>\<open>abi.encodePacked(_imageHash, _isReal, _confidence)\<close>: 32 bytes, 1 byte, 32 bytes.\<close>

definition encodePacked :: "bytes32 \<Rightarrow> bool \<Rightarrow> uint256 \<Rightarrow> byte list" where
  "encodePacked imageHash' isReal' confidence' =
     bytes32_bytes imageHash' @ [if isReal' then 1 else 0] @ bytes32_bytes confidence'"

text \<open>The string literal \<^verbatim>\<open>"\x19Ethereum Signed Message:\n32"\<close>.\<close>

definition ethPrefix :: "byte list" where
  "ethPrefix = map (\<lambda>c. of_nat (of_char c))
     (CHR 0x19 # ''Ethereum Signed Message:'' @ [CHR 0x0A] @ ''32'')"

definition messageHash :: "crypto \<Rightarrow> bytes32 \<Rightarrow> bool \<Rightarrow> uint256 \<Rightarrow> bytes32" where
  "messageHash P imageHash' isReal' confidence' =
     keccak256 P (encodePacked imageHash' isReal' confidence')"

definition ethSignedHash :: "crypto \<Rightarrow> bytes32 \<Rightarrow> bool \<Rightarrow> uint256 \<Rightarrow> bytes32" where
  "ethSignedHash P imageHash' isReal' confidence' =
     keccak256 P (ethPrefix @ bytes32_bytes (messageHash P imageHash' isReal' confidence'))"

subsection \<open>Signature recovery\<close>

text \<open>
  \<^verbatim>\<open>r\<close> and \<^verbatim>\<open>s\<close> are the first and second 32 bytes of the signature read as big-endian
  words, \<^verbatim>\<open>v\<close> is byte 64 (in range: the length was checked). \<^verbatim>\<open>v += 27\<close> runs only
  below 27, where the \<^verbatim>\<open>uint8\<close> sum cannot overflow.
\<close>

definition sig_r :: "byte list \<Rightarrow> bytes32" where
  "sig_r signature = word_rcat (take 32 signature)"

definition sig_s :: "byte list \<Rightarrow> bytes32" where
  "sig_s signature = word_rcat (take 32 (drop 32 signature))"

definition sig_v :: "byte list \<Rightarrow> byte" where
  "sig_v signature = (let v = signature ! 64 in if v < 27 then v + 27 else v)"

definition recoverSigner :: "crypto \<Rightarrow> bytes32 \<Rightarrow> byte list \<Rightarrow> failure + address" where
  "recoverSigner P ethSignedHash' signature =
     (if length signature \<noteq> 65 then Inl (Revert ''Invalid signature length'')
      else if \<not> (sig_v signature = 27 \<or> sig_v signature = 28)
        then Inl (Revert ''Invalid signature v value'')
      else Inr (ecrecover P ethSignedHash' (sig_v signature) (sig_r signature) (sig_s signature)))"

subsection \<open>Constructor and admin functions\<close>

definition constructor :: "env \<Rightarrow> address \<Rightarrow> registry" where
  "constructor e oracleSigner' =
     \<lparr>didDocuments = (\<lambda>_. zeroDIDDocument),
      didToAddress = (\<lambda>_. 0),
      verificationResults = (\<lambda>_. zeroVerificationResult),
      zkProofs = (\<lambda>_. zeroZKProof),
      authorizedIssuers = (\<lambda>_. False)(msg_sender e := True),
      owner = msg_sender e,
      oracleSigner = oracleSigner',
      totalDIDs = 0,
      totalVerifications = 0\<rparr>"

definition setOracleSigner :: "env \<Rightarrow> registry \<Rightarrow> address \<Rightarrow> failure + registry" where
  "setOracleSigner e s newSigner =
     (if msg_sender e \<noteq> owner s then Inl (Revert ''Only owner can call this function'')
      else if newSigner = 0 then Inl (Revert ''Invalid signer address'')
      else Inr (s\<lparr>oracleSigner := newSigner\<rparr>))"

definition authorizeIssuer :: "env \<Rightarrow> registry \<Rightarrow> address \<Rightarrow> failure + registry" where
  "authorizeIssuer e s issuer =
     (if msg_sender e \<noteq> owner s then Inl (Revert ''Only owner can call this function'')
      else if authorizedIssuers s issuer then Inl (Revert ''Already authorized'')
      else Inr (s\<lparr>authorizedIssuers := (authorizedIssuers s)(issuer := True)\<rparr>))"

definition revokeIssuer :: "env \<Rightarrow> registry \<Rightarrow> address \<Rightarrow> failure + registry" where
  "revokeIssuer e s issuer =
     (if msg_sender e \<noteq> owner s then Inl (Revert ''Only owner can call this function'')
      else if \<not> authorizedIssuers s issuer then Inl (Revert ''Not authorized'')
      else if issuer = owner s then Inl (Revert ''Cannot revoke owner'')
      else Inr (s\<lparr>authorizedIssuers := (authorizedIssuers s)(issuer := False)\<rparr>))"

text \<open>The three assignments of \<^verbatim>\<open>transferOwnership\<close>, in the order of the source.\<close>

definition transferOwnership :: "env \<Rightarrow> registry \<Rightarrow> address \<Rightarrow> failure + registry" where
  "transferOwnership e s newOwner =
     (if msg_sender e \<noteq> owner s then Inl (Revert ''Only owner can call this function'')
      else if newOwner = 0 then Inl (Revert ''Invalid address'')
      else
        let s1 = s\<lparr>authorizedIssuers := (authorizedIssuers s)(owner s := False)\<rparr>;
            s2 = s1\<lparr>owner := newOwner\<rparr>
        in Inr (s2\<lparr>authorizedIssuers := (authorizedIssuers s2)(newOwner := True)\<rparr>))"

subsection \<open>DID management\<close>

definition registerDID :: "env \<Rightarrow> registry \<Rightarrow> string \<Rightarrow> string \<Rightarrow> failure + registry" where
  "registerDID e s did' publicKeyBase58' =
     (if isActive (didDocuments s (msg_sender e)) then Inl (Revert ''DID already registered'')
      else if didToAddress s did' \<noteq> 0 then Inl (Revert ''DID already taken'')
      else if \<not> length did' > 0 then Inl (Revert ''DID cannot be empty'')
      else if \<not> length publicKeyBase58' > 0 then Inl (Revert ''Public key cannot be empty'')
      else
        let s1 = s\<lparr>didDocuments := (didDocuments s)(msg_sender e :=
                    \<lparr>doc_owner = msg_sender e, did = did', publicKeyBase58 = publicKeyBase58',
                     isActive = True, createdAt = block_timestamp e,
                     updatedAt = block_timestamp e\<rparr>)\<rparr>;
            s2 = s1\<lparr>didToAddress := (didToAddress s1)(did' := msg_sender e)\<rparr>
        in (case checked_inc (totalDIDs s2) of
              Inl f \<Rightarrow> Inl f
            | Inr n \<Rightarrow> Inr (s2\<lparr>totalDIDs := n\<rparr>)))"

definition updateDIDPublicKey :: "env \<Rightarrow> registry \<Rightarrow> string \<Rightarrow> failure + registry" where
  "updateDIDPublicKey e s newPublicKeyBase58 =
     (if \<not> isActive (didDocuments s (msg_sender e))
        then Inl (Revert ''DID does not exist or is deactivated'')
      else if \<not> length newPublicKeyBase58 > 0 then Inl (Revert ''Public key cannot be empty'')
      else Inr (s\<lparr>didDocuments := (didDocuments s)(msg_sender e :=
                   (didDocuments s (msg_sender e))
                     \<lparr>publicKeyBase58 := newPublicKeyBase58, updatedAt := block_timestamp e\<rparr>)\<rparr>))"

definition deactivateDID :: "env \<Rightarrow> registry \<Rightarrow> failure + registry" where
  "deactivateDID e s =
     (if \<not> isActive (didDocuments s (msg_sender e))
        then Inl (Revert ''DID does not exist or is deactivated'')
      else
        let d = did (didDocuments s (msg_sender e));
            s1 = s\<lparr>didDocuments := (didDocuments s)(msg_sender e :=
                    (didDocuments s (msg_sender e))
                      \<lparr>isActive := False, updatedAt := block_timestamp e\<rparr>)\<rparr>
        in Inr (s1\<lparr>didToAddress := (didToAddress s1)(d := 0)\<rparr>))"

definition resolveDID :: "registry \<Rightarrow> string \<Rightarrow> failure + DIDDocument" where
  "resolveDID s did' =
     (let didOwner = didToAddress s did' in
      if didOwner = 0 then Inl (Revert ''DID not found'')
      else if \<not> isActive (didDocuments s didOwner) then Inl (Revert ''DID is deactivated'')
      else Inr (didDocuments s didOwner))"

definition getMyDID :: "env \<Rightarrow> registry \<Rightarrow> failure + DIDDocument" where
  "getMyDID e s =
     (if \<not> isActive (didDocuments s (msg_sender e)) then Inl (Revert ''No active DID'')
      else Inr (didDocuments s (msg_sender e)))"

subsection \<open>Verification management\<close>

definition recordVerification ::
  "crypto \<Rightarrow> env \<Rightarrow> registry \<Rightarrow> bytes32 \<Rightarrow> string \<Rightarrow> bool \<Rightarrow> uint256 \<Rightarrow> bytes32 \<Rightarrow> byte list
     \<Rightarrow> failure + registry" where
  "recordVerification P e s imageHash' subjectDid' isReal' confidence' credentialHash' signature =
     (if \<not> isActive (didDocuments s (msg_sender e))
        then Inl (Revert ''DID does not exist or is deactivated'')
      else if imageHash' = 0 then Inl (Revert ''Image hash cannot be empty'')
      else if \<not> confidence' \<le> 10000 then Inl (Revert ''Confidence must be <= 10000'')
      else (case recoverSigner P (ethSignedHash P imageHash' isReal' confidence') signature of
        Inl f \<Rightarrow> Inl f
      | Inr recoveredSigner \<Rightarrow>
          (if recoveredSigner \<noteq> oracleSigner s then Inl (Revert ''Invalid oracle signature'')
           else
             let s1 = s\<lparr>verificationResults := (verificationResults s)(imageHash' :=
                         \<lparr>imageHash = imageHash', subjectDid = subjectDid',
                          issuerDid = did (didDocuments s (msg_sender e)),
                          isReal = isReal', confidence = confidence',
                          timestamp = block_timestamp e,
                          credentialHash = credentialHash'\<rparr>)\<rparr>
             in (case checked_inc (totalVerifications s1) of
                   Inl f \<Rightarrow> Inl f
                 | Inr n \<Rightarrow> Inr (s1\<lparr>totalVerifications := n\<rparr>)))))"

definition getVerification :: "registry \<Rightarrow> bytes32 \<Rightarrow> failure + VerificationResult" where
  "getVerification s imageHash' =
     (if \<not> timestamp (verificationResults s imageHash') > 0
        then Inl (Revert ''Verification not found'')
      else Inr (verificationResults s imageHash'))"

definition isImageVerified :: "registry \<Rightarrow> bytes32 \<Rightarrow> bool" where
  "isImageVerified s imageHash' = (timestamp (verificationResults s imageHash') > 0)"

subsection \<open>ZK proof management\<close>

definition submitZKProof ::
  "env \<Rightarrow> registry \<Rightarrow> bytes32 \<Rightarrow> bytes32 \<Rightarrow> bytes32 \<Rightarrow> failure + registry" where
  "submitZKProof e s imageHash' proofHash' publicInputHash' =
     (if imageHash' = 0 then Inl (Revert ''Image hash cannot be empty'')
      else if proofHash' = 0 then Inl (Revert ''Proof hash cannot be empty'')
      else Inr (s\<lparr>zkProofs := (zkProofs s)(imageHash' :=
                   \<lparr>proofHash = proofHash', publicInputHash = publicInputHash',
                    isValid = False, proofTimestamp = block_timestamp e\<rparr>)\<rparr>))"

definition verifyZKProof :: "registry \<Rightarrow> bytes32 \<Rightarrow> bytes32 \<Rightarrow> failure + bool" where
  "verifyZKProof s imageHash' expectedProofHash =
     (let proof = zkProofs s imageHash' in
      if \<not> proofTimestamp proof > 0 then Inl (Revert ''ZK Proof not found'')
      else Inr (proofHash proof = expectedProofHash))"

subsection \<open>View functions\<close>

definition isAuthorizedIssuer :: "registry \<Rightarrow> address \<Rightarrow> bool" where
  "isAuthorizedIssuer s a = authorizedIssuers s a"

definition getStats :: "registry \<Rightarrow> uint256 \<times> uint256" where
  "getStats s = (totalDIDs s, totalVerifications s)"

definition getOracleSigner :: "registry \<Rightarrow> address" where
  "getOracleSigner s = oracleSigner s"

subsection \<open>Transactions\<close>

text \<open>
  The external state-mutating functions as one datatype, and a transaction as the EVM
  runs it: the storage of a call that reverts or panics is the storage before the call.
\<close>

datatype call =
    SetOracleSigner address
  | RegisterDID string string
  | UpdateDIDPublicKey string
  | DeactivateDID
  | RecordVerification bytes32 string bool uint256 bytes32 "byte list"
  | SubmitZKProof bytes32 bytes32 bytes32
  | AuthorizeIssuer address
  | RevokeIssuer address
  | TransferOwnership address

fun exec :: "crypto \<Rightarrow> env \<Rightarrow> registry \<Rightarrow> call \<Rightarrow> failure + registry" where
  "exec P e s (SetOracleSigner a) = setOracleSigner e s a"
| "exec P e s (RegisterDID d k) = registerDID e s d k"
| "exec P e s (UpdateDIDPublicKey k) = updateDIDPublicKey e s k"
| "exec P e s DeactivateDID = deactivateDID e s"
| "exec P e s (RecordVerification h sd b c ch sg) = recordVerification P e s h sd b c ch sg"
| "exec P e s (SubmitZKProof h p i) = submitZKProof e s h p i"
| "exec P e s (AuthorizeIssuer a) = authorizeIssuer e s a"
| "exec P e s (RevokeIssuer a) = revokeIssuer e s a"
| "exec P e s (TransferOwnership a) = transferOwnership e s a"

definition transact :: "crypto \<Rightarrow> registry \<Rightarrow> env \<times> call \<Rightarrow> registry" where
  "transact P s tx = (case exec P (fst tx) s (snd tx) of Inl _ \<Rightarrow> s | Inr s' \<Rightarrow> s')"

fun run :: "crypto \<Rightarrow> registry \<Rightarrow> (env \<times> call) list \<Rightarrow> registry" where
  "run P s [] = s"
| "run P s (tx # txs) = run P (transact P s tx) txs"

definition succeeds :: "failure + 'a \<Rightarrow> bool" where
  "succeeds r = (case r of Inl _ \<Rightarrow> False | Inr _ \<Rightarrow> True)"

subsection \<open>The invariant of the reverse index\<close>

text \<open>
  Every active document belongs to a non-zero account, names a non-empty DID string, and
  is the one the reverse index points to from that string.
\<close>

definition index_consistent :: "registry \<Rightarrow> bool" where
  "index_consistent s =
     (\<forall>a. isActive (didDocuments s a) \<longrightarrow>
        a \<noteq> 0 \<and> did (didDocuments s a) \<noteq> []
        \<and> didToAddress s (did (didDocuments s a)) = a)"

text \<open>Transactions are sent by accounts, and no account has the zero address.\<close>

definition senders_nonzero :: "(env \<times> call) list \<Rightarrow> bool" where
  "senders_nonzero txs = list_all (\<lambda>tx. msg_sender (fst tx) \<noteq> 0) txs"

text \<open>No transaction of the list is a \<^verbatim>\<open>deactivateDID\<close> sent by \<open>a\<close>.\<close>

definition no_deactivation_by :: "address \<Rightarrow> (env \<times> call) list \<Rightarrow> bool" where
  "no_deactivation_by a txs =
     list_all (\<lambda>tx. \<not> (msg_sender (fst tx) = a \<and> snd tx = DeactivateDID)) txs"

subsection \<open>The unused modifier\<close>

text \<open>
  \<^verbatim>\<open>onlyAuthorizedIssuer\<close> is declared in the contract; no function carries it. It is
  modelled as the check it would run before a function body.
\<close>

definition onlyAuthorizedIssuer :: "env \<Rightarrow> registry \<Rightarrow> failure + unit" where
  "onlyAuthorizedIssuer e s =
     (if \<not> authorizedIssuers s (msg_sender e) then Inl (Revert ''Not an authorized issuer'')
      else Inr ())"

text \<open>The two functions that read \<^verbatim>\<open>authorizedIssuers\<close> in a \<^verbatim>\<open>require\<close> of their own.\<close>

fun readsIssuerFlag :: "call \<Rightarrow> bool" where
  "readsIssuerFlag (AuthorizeIssuer a) = True"
| "readsIssuerFlag (RevokeIssuer a) = True"
| "readsIssuerFlag cl = False"

subsection \<open>Concrete scenarios\<close>

text \<open>
  Instances of the two primitives for the concrete scenarios below: a position-weighted
  byte sum as hash, and a recovery in which a signature carries the digest it signs in
  \<open>r\<close> and the signer in \<open>s\<close>. Like \<^verbatim>\<open>ecrecover\<close> it yields the zero address for a signature that does not fit
  the digest. The general theorems do not depend on them.
\<close>

fun weigh :: "bytes32 \<Rightarrow> byte list \<Rightarrow> bytes32" where
  "weigh i [] = 0"
| "weigh i (b # bs) = i * (ucast b + 1) + weigh (i + 1) bs"

definition toy_keccak256 :: "byte list \<Rightarrow> bytes32" where
  "toy_keccak256 bs = weigh 1 bs"

definition toy_ecrecover :: "bytes32 \<Rightarrow> byte \<Rightarrow> bytes32 \<Rightarrow> bytes32 \<Rightarrow> address" where
  "toy_ecrecover h v r s = (if r = h then ucast s else 0)"

definition toy_crypto :: crypto where
  "toy_crypto = \<lparr>keccak256 = toy_keccak256, ecrecover = toy_ecrecover\<rparr>"

definition toy_sign :: "address \<Rightarrow> bytes32 \<Rightarrow> byte list" where
  "toy_sign a h = bytes32_bytes h @ bytes32_bytes (ucast a) @ [27]"

definition admin :: address where "admin = 0xAD"
definition alice :: address where "alice = 0xA1"
definition bob :: address where "bob = 0xB0"
definition signer1 :: address where "signer1 = 0x0C"
definition signer2 :: address where "signer2 = 0x0D"

definition by_at :: "address \<Rightarrow> uint256 \<Rightarrow> env" where
  "by_at a t = \<lparr>msg_sender = a, block_timestamp = t\<rparr>"

text \<open>The registry deployed by \<open>admin\<close> with signer \<open>signer1\<close>, after \<open>alice\<close> registered a DID.\<close>

definition deployed :: registry where
  "deployed = constructor (by_at admin 1000) signer1"

definition with_alice :: registry where
  "with_alice = transact toy_crypto deployed (by_at alice 1001, RegisterDID ''did:x:1'' ''k1'')"

text \<open>The signature of \<open>a\<close> on the verdict \<open>(h, b, c)\<close> in the toy scheme.\<close>

definition verdict_sig :: "address \<Rightarrow> bytes32 \<Rightarrow> bool \<Rightarrow> uint256 \<Rightarrow> byte list" where
  "verdict_sig a h b c = toy_sign a (ethSignedHash toy_crypto h b c)"

text \<open>After the oracle's verdict on content \<open>0xAA\<close> was recorded by \<open>alice\<close>.\<close>

definition recorded :: registry where
  "recorded = transact toy_crypto with_alice (by_at alice 1002,
     RecordVerification 0xAA ''did:x:9'' True 9200 0xCC (verdict_sig signer1 0xAA True 9200))"

text \<open>After \<open>alice\<close> deactivated her DID.\<close>

definition alice_gone :: registry where
  "alice_gone = transact toy_crypto with_alice (by_at alice 1004, DeactivateDID)"

text \<open>
  A registry deployed with the zero address as oracle signer, in which \<open>alice\<close> has
  registered, and a signature of 64 zero bytes followed by \<open>v = 27\<close>.
\<close>

definition unsigned_registry :: registry where
  "unsigned_registry = transact toy_crypto (constructor (by_at admin 1000) 0)
     (by_at alice 1001, RegisterDID ''did:x:1'' ''k1'')"

definition zero_sig :: "byte list" where
  "zero_sig = replicate 64 0 @ [27]"

text \<open>After \<open>alice\<close>, registered, replaced her key.\<close>

definition alice_rekeyed :: registry where
  "alice_rekeyed = run toy_crypto with_alice [(by_at alice 1002, UpdateDIDPublicKey ''k9'')]"

section \<open>Properties\<close>

subsection \<open>Encodings and checked increments\<close>

lemma bytes32_bytes_nth:
  assumes "i < 32"
  shows "bytes32_bytes w ! i = ucast (drop_bit (8 * (31 - i)) w)"
  using assms by (simp add: bytes32_bytes_def)

lemma length_bytes32_bytes: "length (bytes32_bytes w) = 32"
  by (simp add: bytes32_bytes_def)

text \<open>Every bit of the word is a bit of one of its bytes, so equal byte lists mean equal words.\<close>

lemma bytes32_bytes_inj:
  assumes "bytes32_bytes w = bytes32_bytes w'"
  shows "w = w'"
proof (rule bit_word_eqI)
  fix n assume "n < LENGTH(256)"
  then have n: "n < 256" by simp
  define i where "i = 31 - n div 8"
  have i: "i < 32" and k: "31 - i = n div 8" using n by (simp_all add: i_def)
  have "bytes32_bytes w ! i = bytes32_bytes w' ! i" using assms by simp
  then have eq: "(ucast (drop_bit (8 * (n div 8)) w) :: byte) = ucast (drop_bit (8 * (n div 8)) w')"
    using i k by (simp add: bytes32_bytes_nth)
  have "bit (ucast (drop_bit (8 * (n div 8)) w) :: byte) (n mod 8) = bit w n" for w :: bytes32
    by (simp add: bit_ucast_iff bit_drop_bit_eq)
  with eq show "bit w n = bit w' n" by metis
qed

lemma encodePacked_inj:
  "encodePacked h b c = encodePacked h' b' c' \<Longrightarrow> h = h' \<and> b = b' \<and> c = c'"
  by (auto simp: encodePacked_def length_bytes32_bytes dest: bytes32_bytes_inj split: if_splits)

lemma unat_inc: "(x::uint256) \<noteq> - 1 \<Longrightarrow> unat (x + 1) = unat x + 1"
  by (metis add.commute unatSuc add_eq_0_iff2 plus_1_eq_Suc)

lemma checked_inc_Inr: "checked_inc x = Inr y \<longleftrightarrow> x \<noteq> - 1 \<and> y = x + 1"
  by (auto simp: checked_inc_def)

lemma checked_inc_Inl: "checked_inc x = Inl f \<longleftrightarrow> x = - 1 \<and> f = Panic"
  by (auto simp: checked_inc_def)

subsection \<open>Counters and rollback\<close>

lemma registerDID_counters:
  "registerDID e s d k = Inr s' \<Longrightarrow>
     unat (totalDIDs s') = unat (totalDIDs s) + 1 \<and> totalVerifications s' = totalVerifications s"
  by (auto simp: registerDID_def Let_def checked_inc_def unat_inc split: if_splits sum.splits)

lemma recordVerification_counters:
  "recordVerification P e s h sd b c ch sg = Inr s' \<Longrightarrow>
     unat (totalVerifications s') = unat (totalVerifications s) + 1 \<and> totalDIDs s' = totalDIDs s"
  by (auto simp: recordVerification_def Let_def checked_inc_def unat_inc split: if_splits sum.splits)

lemma transact_failed: "\<not> succeeds (exec P e s c) \<Longrightarrow> transact P s (e, c) = s"
  by (simp add: transact_def succeeds_def split: sum.splits)

lemma transact_succeeded: "exec P e s c = Inr s' \<Longrightarrow> transact P s (e, c) = s'"
  by (simp add: transact_def)

text \<open>
  Each transaction raises each counter by at most one, so a counter has reached
  \<open>2\<^sup>2\<^sup>5\<^sup>6 - 1\<close>, where its checked increment panics, only after that many transactions.
\<close>

lemma exec_counters_step:
  assumes "exec P e s cl = Inr s'"
  shows "unat (totalDIDs s') \<le> unat (totalDIDs s) + 1
       \<and> unat (totalVerifications s') \<le> unat (totalVerifications s) + 1"
proof (cases cl)
  case (RegisterDID d k)
  with assms show ?thesis using registerDID_counters [of e s d k s'] by simp
next
  case (RecordVerification h sd b c ch sg)
  with assms show ?thesis using recordVerification_counters [of P e s h sd b c ch sg s'] by simp
qed (use assms in \<open>auto simp: setOracleSigner_def updateDIDPublicKey_def deactivateDID_def
      submitZKProof_def authorizeIssuer_def revokeIssuer_def transferOwnership_def Let_def
      split: if_splits\<close>)

lemma transact_counters_step:
  "unat (totalDIDs (transact P s tx)) \<le> unat (totalDIDs s) + 1
   \<and> unat (totalVerifications (transact P s tx)) \<le> unat (totalVerifications s) + 1"
proof (cases "exec P (fst tx) s (snd tx)")
  case (Inl f)
  then show ?thesis by (simp add: transact_def)
next
  case (Inr s')
  then show ?thesis using exec_counters_step [OF Inr] by (simp add: transact_def)
qed

lemma run_counters:
  "unat (totalDIDs (run P s txs)) \<le> unat (totalDIDs s) + length txs
   \<and> unat (totalVerifications (run P s txs)) \<le> unat (totalVerifications s) + length txs"
proof (induction txs arbitrary: s)
  case Nil
  then show ?case by simp
next
  case (Cons tx txs)
  from Cons.IH [of "transact P s tx"] transact_counters_step [of P s tx]
  show ?case by auto
qed

lemma counters_bounded_by_history:
  "unat (totalDIDs (run P (constructor e sg) txs)) \<le> length txs
   \<and> unat (totalVerifications (run P (constructor e sg) txs)) \<le> length txs"
  using run_counters [of P "constructor e sg" txs] by (simp add: constructor_def)

lemma counters_have_room:
  assumes "length txs < 2 ^ 256 - 1"
  shows "totalDIDs (run P (constructor e sg) txs) \<noteq> - 1
       \<and> totalVerifications (run P (constructor e sg) txs) \<noteq> - 1"
proof -
  have m: "unat (- 1 :: uint256) = 2 ^ 256 - 1"
    by (simp add: unsigned_minus_1_eq_mask mask_eq_exp_minus_1)
  from counters_bounded_by_history [of P e sg txs] assms
  have "unat (totalDIDs (run P (constructor e sg) txs)) < 2 ^ 256 - 1"
    and "unat (totalVerifications (run P (constructor e sg) txs)) < 2 ^ 256 - 1"
    by linarith+
  with m show ?thesis by (metis nat_neq_iff)
qed

subsection \<open>The toy signature scheme\<close>

lemma word_rcat_bytes32_bytes: "(word_rcat (bytes32_bytes w) :: bytes32) = w"
proof (rule bit_word_eqI)
  fix n assume "n < LENGTH(256)"
  then have n: "n < 256" by simp
  then have d: "n div 8 < 32" by simp
  have len: "length (bytes32_bytes w) = 32" by (simp add: bytes32_bytes_def)
  have idx: "31 - (31 - n div 8) = n div 8" using d by simp
  have "bit (word_rcat (bytes32_bytes w) :: bytes32) n
        = bit (rev (bytes32_bytes w) ! (n div 8)) (n mod 8)"
    using n d bit_horner_sum_uint_exp_iff [where ?'a = 8, of "rev (bytes32_bytes w)" n]
    by (simp add: word_rcat_def bit_word_of_int_iff len)
  also have "rev (bytes32_bytes w) ! (n div 8) = bytes32_bytes w ! (31 - n div 8)"
    using d by (simp add: rev_nth len)
  also have "\<dots> = ucast (drop_bit (8 * (n div 8)) w)"
    using d by (simp add: bytes32_bytes_nth idx)
  also have "bit (ucast (drop_bit (8 * (n div 8)) w) :: byte) (n mod 8) = bit w n"
    by (simp add: bit_ucast_iff bit_drop_bit_eq)
  finally show "bit (word_rcat (bytes32_bytes w) :: bytes32) n = bit w n" .
qed

lemma toy_sign_parts:
  "length (toy_sign a h) = 65" "sig_r (toy_sign a h) = h" "sig_s (toy_sign a h) = ucast a"
  "sig_v (toy_sign a h) = 27"
  by (simp_all add: toy_sign_def sig_r_def sig_s_def sig_v_def length_bytes32_bytes
      word_rcat_bytes32_bytes nth_append)

lemma ucast_address_roundtrip: "(ucast (ucast (a::address) :: bytes32) :: address) = a"
  by (rule bit_word_eqI) (simp add: bit_ucast_iff)

lemma toy_recover:
  "recoverSigner toy_crypto d (toy_sign a d') = Inr (if d' = d then a else 0)"
  by (simp add: recoverSigner_def toy_sign_parts toy_crypto_def toy_ecrecover_def
      ucast_address_roundtrip)

lemma length_verdict_sig: "length (verdict_sig a h b c) = 65"
  by (simp add: verdict_sig_def toy_sign_parts)

subsection \<open>The concrete registry states\<close>

lemma addresses_distinct:
  "alice \<noteq> 0" "bob \<noteq> 0" "admin \<noteq> 0" "alice \<noteq> bob" "bob \<noteq> alice" "alice \<noteq> admin" "admin \<noteq> alice"
  "bob \<noteq> admin" "admin \<noteq> bob" "signer1 \<noteq> signer2" "signer1 \<noteq> 0" "signer2 \<noteq> 0"
  by (simp_all add: alice_def bob_def admin_def signer1_def signer2_def)

lemma register_alice:
  "registerDID (by_at alice 1001) deployed ''did:x:1'' ''k1'' = Inr with_alice"
  by (simp add: with_alice_def transact_def registerDID_def deployed_def constructor_def by_at_def
      zeroDIDDocument_def checked_inc_def Let_def addresses_distinct)

lemma with_alice_fields:
  "didDocuments with_alice alice = \<lparr>doc_owner = alice, did = ''did:x:1'', publicKeyBase58 = ''k1'',
     isActive = True, createdAt = 1001, updatedAt = 1001\<rparr>"
  "didDocuments with_alice bob = zeroDIDDocument"
  "didToAddress with_alice ''did:x:1'' = alice"
  "oracleSigner with_alice = signer1"
  "owner with_alice = admin"
  "totalDIDs with_alice = 1"
  "totalVerifications with_alice = 0"
  "verificationResults with_alice h = zeroVerificationResult"
  by (simp_all add: with_alice_def transact_def registerDID_def deployed_def constructor_def by_at_def
      zeroDIDDocument_def checked_inc_def Let_def addresses_distinct)

lemma record_alice:
  "recordVerification toy_crypto (by_at alice 1002) with_alice 0xAA ''did:x:9'' True 9200 0xCC
     (verdict_sig signer1 0xAA True 9200)
   = Inr (with_alice\<lparr>verificationResults := (verificationResults with_alice)(0xAA :=
        \<lparr>imageHash = 0xAA, subjectDid = ''did:x:9'', issuerDid = ''did:x:1'', isReal = True,
         confidence = 9200, timestamp = 1002, credentialHash = 0xCC\<rparr>),
        totalVerifications := 1\<rparr>)"
  by (simp add: recordVerification_def verdict_sig_def toy_recover with_alice_fields by_at_def
      checked_inc_def Let_def)


text \<open>
  C7. A successful \<^verbatim>\<open>registerDID\<close> raises \<open>totalDIDs\<close> by exactly one and leaves
  \<open>totalVerifications\<close> alone; a successful \<^verbatim>\<open>recordVerification\<close> raises
  \<open>totalVerifications\<close> by exactly one and leaves \<open>totalDIDs\<close> alone (the sums are
  those of natural numbers: the checked increment never wraps). A call of any
  state-mutating function that fails leaves the whole storage as it was.
\<close>

theorem counters_and_rollback:
  "(registerDID e1 s1 d k = Inr s1' \<longrightarrow>
      unat (totalDIDs s1') = unat (totalDIDs s1) + 1
      \<and> totalVerifications s1' = totalVerifications s1)
   \<and> (recordVerification P e2 s2 h sd b c ch sg = Inr s2' \<longrightarrow>
      unat (totalVerifications s2') = unat (totalVerifications s2) + 1
      \<and> totalDIDs s2' = totalDIDs s2)
   \<and> (\<not> succeeds (exec P e3 s3 cl) \<longrightarrow> transact P s3 (e3, cl) = s3)"
  using registerDID_counters recordVerification_counters transact_failed by blast

theorem counters_and_rollback_witness:
  "registerDID (by_at alice 1001) deployed ''did:x:1'' ''k1'' = Inr with_alice
   \<and> unat (totalDIDs with_alice) = unat (totalDIDs deployed) + 1
   \<and> succeeds (recordVerification toy_crypto (by_at alice 1002) with_alice 0xAA ''did:x:9'' True 9200
        0xCC (verdict_sig signer1 0xAA True 9200))
   \<and> unat (totalVerifications (projr (recordVerification toy_crypto (by_at alice 1002) with_alice
        0xAA ''did:x:9'' True 9200 0xCC (verdict_sig signer1 0xAA True 9200))))
       = unat (totalVerifications with_alice) + 1
   \<and> \<not> succeeds (exec toy_crypto (by_at bob 1003) with_alice DeactivateDID)
   \<and> transact toy_crypto with_alice (by_at bob 1003, DeactivateDID) = with_alice"
proof -
  let ?r = "recordVerification toy_crypto (by_at alice 1002) with_alice 0xAA ''did:x:9'' True 9200
        0xCC (verdict_sig signer1 0xAA True 9200)"
  have ok: "?r = Inr (projr ?r)" by (simp add: record_alice)
  have succ: "succeeds ?r" by (simp add: succeeds_def record_alice)
  have bad: "\<not> succeeds (exec toy_crypto (by_at bob 1003) with_alice DeactivateDID)"
    by (simp add: succeeds_def deactivateDID_def with_alice_fields by_at_def zeroDIDDocument_def)
  note T = counters_and_rollback [where ?e1.0 = "by_at alice 1001" and ?s1.0 = deployed
        and d = "''did:x:1''" and k = "''k1''" and ?s1' = with_alice
        and P = toy_crypto and ?e2.0 = "by_at alice 1002" and ?s2.0 = with_alice and h = "0xAA"
        and sd = "''did:x:9''" and b = True and c = 9200 and ch = "0xCC"
        and sg = "verdict_sig signer1 0xAA True 9200" and ?s2' = "projr ?r"
        and ?e3.0 = "by_at bob 1003" and ?s3.0 = with_alice and cl = DeactivateDID]
  from T register_alice
  have a: "unat (totalDIDs with_alice) = unat (totalDIDs deployed) + 1" by blast
  from T ok
  have b: "unat (totalVerifications (projr ?r)) = unat (totalVerifications with_alice) + 1"
    by blast
  from T bad
  have c: "transact toy_crypto with_alice (by_at bob 1003, DeactivateDID) = with_alice" by blast
  show ?thesis using register_alice a succ b bad c by blast
qed

subsection \<open>Proof commitments\<close>

lemma deployed_fields:
  "zkProofs deployed h = zeroZKProof"
  "didDocuments deployed a = zeroDIDDocument"
  "owner deployed = admin"
  "oracleSigner deployed = signer1"
  "authorizedIssuers deployed a = (a = admin)"
  "totalDIDs deployed = 0"
  "didToAddress deployed d = 0"
  by (simp_all add: deployed_def constructor_def by_at_def)

text \<open>
  C8, as stated, fails on the code: \<^verbatim>\<open>submitZKProof\<close> has a \<^verbatim>\<open>require\<close> for
  \<^verbatim>\<open>_imageHash\<close> and one for \<^verbatim>\<open>_proofHash\<close> and none for \<^verbatim>\<open>_publicInputHash\<close>. With a
  zero public-input hash and the other two non-zero the call succeeds.
\<close>

theorem submitZKProof_zero_publicInputHash_counterexample:
  "submitZKProof (by_at bob 1002) deployed 0xAA 0xBB 0
   = Inr (deployed\<lparr>zkProofs := (zkProofs deployed)(0xAA :=
        \<lparr>proofHash = 0xBB, publicInputHash = 0, isValid = False, proofTimestamp = 1002\<rparr>)\<rparr>)"
  by (simp add: submitZKProof_def by_at_def)

text \<open>
  C8, amended. \<^verbatim>\<open>submitZKProof\<close> fails when the content hash or the proof hash is zero;
  the public-input hash is not checked. Otherwise it succeeds and stores, under the
  content hash, the commitment with the two given hashes, \<open>isValid = False\<close> and the
  block timestamp. \<^verbatim>\<open>verifyZKProof\<close> fails with "ZK Proof not found" when the stored
  timestamp is zero, and otherwise returns whether the stored proof hash equals the
  expected one.
\<close>

theorem zk_commitments:
  "(h = 0 \<or> p = 0 \<longrightarrow> \<not> succeeds (submitZKProof e s h p i))
   \<and> (h \<noteq> 0 \<and> p \<noteq> 0 \<longrightarrow>
        submitZKProof e s h p i = Inr (s\<lparr>zkProofs := (zkProofs s)(h :=
          \<lparr>proofHash = p, publicInputHash = i, isValid = False,
           proofTimestamp = block_timestamp e\<rparr>)\<rparr>))
   \<and> (proofTimestamp (zkProofs s2 h2) = 0 \<longrightarrow>
        verifyZKProof s2 h2 x = Inl (Revert ''ZK Proof not found''))
   \<and> (proofTimestamp (zkProofs s2 h2) \<noteq> 0 \<longrightarrow>
        verifyZKProof s2 h2 x = Inr (proofHash (zkProofs s2 h2) = x))"
  by (auto simp: submitZKProof_def verifyZKProof_def succeeds_def Let_def word_gt_0)

theorem zk_commitments_witness:
  "\<not> succeeds (submitZKProof (by_at bob 1002) deployed 0 0xBB 0xDD)
   \<and> submitZKProof (by_at bob 1002) deployed 0xAA 0xBB 0xDD
       = Inr (deployed\<lparr>zkProofs := (zkProofs deployed)(0xAA :=
            \<lparr>proofHash = 0xBB, publicInputHash = 0xDD, isValid = False, proofTimestamp = 1002\<rparr>)\<rparr>)
   \<and> verifyZKProof deployed 0xAA 0xBB = Inl (Revert ''ZK Proof not found'')
   \<and> verifyZKProof (projr (submitZKProof (by_at bob 1002) deployed 0xAA 0xBB 0xDD)) 0xAA 0xBC
       = Inr False"
proof -
  let ?s = "projr (submitZKProof (by_at bob 1002) deployed 0xAA 0xBB 0xDD)"
  have z: "proofTimestamp (zkProofs deployed 0xAA) = 0"
    by (simp add: deployed_fields zeroZKProof_def)
  have s: "zkProofs ?s 0xAA
    = \<lparr>proofHash = 0xBB, publicInputHash = 0xDD, isValid = False, proofTimestamp = 1002\<rparr>"
    by (simp add: submitZKProof_def by_at_def)
  from zk_commitments [where h = 0 and p = "0xBB" and e = "by_at bob 1002" and s = deployed
      and i = "0xDD"]
  have a: "\<not> succeeds (submitZKProof (by_at bob 1002) deployed 0 0xBB 0xDD)" by simp
  from zk_commitments [where h = "0xAA" and p = "0xBB" and e = "by_at bob 1002" and s = deployed
      and i = "0xDD"]
  have b: "submitZKProof (by_at bob 1002) deployed 0xAA 0xBB 0xDD
       = Inr (deployed\<lparr>zkProofs := (zkProofs deployed)(0xAA :=
            \<lparr>proofHash = 0xBB, publicInputHash = 0xDD, isValid = False, proofTimestamp = 1002\<rparr>)\<rparr>)"
    by (simp add: by_at_def)
  from zk_commitments [where ?s2.0 = deployed and ?h2.0 = "0xAA" and x = "0xBB"] z
  have c: "verifyZKProof deployed 0xAA 0xBB = Inl (Revert ''ZK Proof not found'')" by blast
  have nz: "proofTimestamp (zkProofs ?s 0xAA) \<noteq> 0"
    and ph: "(proofHash (zkProofs ?s 0xAA) = 0xBC) = False"
    by (simp_all add: s)
  from zk_commitments [where ?s2.0 = ?s and ?h2.0 = "0xAA" and x = "0xBC"] nz
  have "verifyZKProof ?s 0xAA 0xBC = Inr (proofHash (zkProofs ?s 0xAA) = 0xBC)" by blast
  then have d: "verifyZKProof ?s 0xAA 0xBC = Inr False" by (simp only: ph)
  show ?thesis using a b c d by blast
qed

subsection \<open>The confidence bound\<close>

text \<open>
  C5. For a caller with an active DID document, a non-zero content hash and a signature
  that recovers to the current oracle signer, \<^verbatim>\<open>recordVerification\<close> fails with
  "Confidence must be <= 10000" for every confidence above 10000, and succeeds for every
  confidence from 0 to 10000 (while \<open>totalVerifications\<close> is below \<open>2\<^sup>2\<^sup>5\<^sup>6 - 1\<close>, where
  the checked increment of the counter panics).
\<close>

theorem confidence_bound:
  assumes "isActive (didDocuments s (msg_sender e))"
    and "h \<noteq> 0"
    and "recoverSigner P (ethSignedHash P h b c) sg = Inr (oracleSigner s)"
  shows "(10000 < unat c \<longrightarrow>
            recordVerification P e s h sd b c ch sg = Inl (Revert ''Confidence must be <= 10000''))
       \<and> (unat c \<le> 10000 \<and> totalVerifications s \<noteq> - 1 \<longrightarrow>
            succeeds (recordVerification P e s h sd b c ch sg))"
  using assms
  by (auto simp: recordVerification_def succeeds_def Let_def checked_inc_def word_le_nat_alt)


theorem confidence_bound_witness:
  "isActive (didDocuments with_alice (msg_sender (by_at alice 1002)))
   \<and> (0xAA :: bytes32) \<noteq> 0
   \<and> recoverSigner toy_crypto (ethSignedHash toy_crypto 0xAA True 10001)
        (verdict_sig signer1 0xAA True 10001) = Inr (oracleSigner with_alice)
   \<and> recoverSigner toy_crypto (ethSignedHash toy_crypto 0xAA True 10000)
        (verdict_sig signer1 0xAA True 10000) = Inr (oracleSigner with_alice)
   \<and> totalVerifications with_alice \<noteq> - 1
   \<and> recordVerification toy_crypto (by_at alice 1002) with_alice 0xAA ''did:x:9'' True 10001 0xCC
        (verdict_sig signer1 0xAA True 10001) = Inl (Revert ''Confidence must be <= 10000'')
   \<and> succeeds (recordVerification toy_crypto (by_at alice 1002) with_alice 0xAA ''did:x:9'' True
        10000 0xCC (verdict_sig signer1 0xAA True 10000))"
proof -
  have act: "isActive (didDocuments with_alice (msg_sender (by_at alice 1002)))"
    by (simp add: by_at_def with_alice_fields)
  have nz: "(0xAA :: bytes32) \<noteq> 0" by simp
  have sg: "recoverSigner toy_crypto (ethSignedHash toy_crypto 0xAA True c)
        (verdict_sig signer1 0xAA True c) = Inr (oracleSigner with_alice)" for c
    by (simp add: verdict_sig_def toy_recover with_alice_fields)
  have room: "totalVerifications with_alice \<noteq> - 1" by (simp add: with_alice_fields)
  have hi: "10000 < unat (10001 :: uint256)" and lo: "unat (10000 :: uint256) \<le> 10000"
    by simp_all
  from confidence_bound [OF act nz sg, where sd = "''did:x:9''" and ch = "0xCC"] hi
  have a: "recordVerification toy_crypto (by_at alice 1002) with_alice 0xAA ''did:x:9'' True 10001
      0xCC (verdict_sig signer1 0xAA True 10001) = Inl (Revert ''Confidence must be <= 10000'')"
    by blast
  from confidence_bound [OF act nz sg, where sd = "''did:x:9''" and ch = "0xCC"] lo room
  have b: "succeeds (recordVerification toy_crypto (by_at alice 1002) with_alice 0xAA ''did:x:9''
      True 10000 0xCC (verdict_sig signer1 0xAA True 10000))"
    by blast
  show ?thesis using act nz sg room a b by blast
qed

subsection \<open>The issuer flag\<close>

text \<open>
  C9. \<^verbatim>\<open>recordVerification\<close> does not read \<open>authorizedIssuers\<close>: run on a storage whose
  authorised-issuer set is replaced by any other, it fails with the same failure or
  succeeds with the same storage (each run keeping its own set). No state-mutating
  function applies \<^verbatim>\<open>onlyAuthorizedIssuer\<close>: none ever fails with the failure of that
  modifier, and for every function but \<^verbatim>\<open>authorizeIssuer\<close> and \<^verbatim>\<open>revokeIssuer\<close> (which
  test the flag of their argument in a \<^verbatim>\<open>require\<close> of their own) success does not
  depend on the set at all.
\<close>

theorem issuer_flag_unused:
  "recordVerification P e (s\<lparr>authorizedIssuers := f\<rparr>) h sd b c ch sg
     = map_sum id (\<lambda>s'. s'\<lparr>authorizedIssuers := f\<rparr>) (recordVerification P e s h sd b c ch sg)
   \<and> (onlyAuthorizedIssuer e1 s1 = Inl x \<longrightarrow> exec P e2 s2 cl \<noteq> Inl x)
   \<and> (\<not> readsIssuerFlag cl \<longrightarrow>
        succeeds (exec P e2 (s2\<lparr>authorizedIssuers := f\<rparr>) cl) = succeeds (exec P e2 s2 cl))"
proof (intro conjI impI)
  show "recordVerification P e (s\<lparr>authorizedIssuers := f\<rparr>) h sd b c ch sg
     = map_sum id (\<lambda>s'. s'\<lparr>authorizedIssuers := f\<rparr>) (recordVerification P e s h sd b c ch sg)"
    by (simp add: recordVerification_def Let_def checked_inc_def split: sum.splits)
next
  assume "onlyAuthorizedIssuer e1 s1 = Inl x"
  then have x: "x = Revert ''Not an authorized issuer''"
    by (simp add: onlyAuthorizedIssuer_def split: if_splits)
  show "exec P e2 s2 cl \<noteq> Inl x"
    unfolding x
    by (cases cl)
      (simp_all add: setOracleSigner_def registerDID_def updateDIDPublicKey_def deactivateDID_def
        recordVerification_def recoverSigner_def submitZKProof_def authorizeIssuer_def
        revokeIssuer_def transferOwnership_def Let_def checked_inc_def split: sum.splits)
next
  assume "\<not> readsIssuerFlag cl"
  then show "succeeds (exec P e2 (s2\<lparr>authorizedIssuers := f\<rparr>) cl) = succeeds (exec P e2 s2 cl)"
    by (cases cl)
      (simp_all add: setOracleSigner_def registerDID_def updateDIDPublicKey_def deactivateDID_def
        recordVerification_def submitZKProof_def transferOwnership_def succeeds_def
        Let_def checked_inc_def split: sum.splits)
qed


theorem issuer_flag_unused_witness:
  "onlyAuthorizedIssuer (by_at alice 1002) with_alice = Inl (Revert ''Not an authorized issuer'')
   \<and> exec toy_crypto (by_at alice 1002) with_alice
        (RecordVerification 0xAA ''did:x:9'' True 9200 0xCC (verdict_sig signer1 0xAA True 9200))
       \<noteq> Inl (Revert ''Not an authorized issuer'')
   \<and> \<not> readsIssuerFlag
        (RecordVerification 0xAA ''did:x:9'' True 9200 0xCC (verdict_sig signer1 0xAA True 9200))
   \<and> succeeds (exec toy_crypto (by_at alice 1002) (with_alice\<lparr>authorizedIssuers := \<lambda>_. True\<rparr>)
        (RecordVerification 0xAA ''did:x:9'' True 9200 0xCC (verdict_sig signer1 0xAA True 9200)))
   \<and> succeeds (exec toy_crypto (by_at alice 1002) with_alice
        (RecordVerification 0xAA ''did:x:9'' True 9200 0xCC (verdict_sig signer1 0xAA True 9200)))"
proof -
  let ?cl = "RecordVerification 0xAA ''did:x:9'' True 9200 0xCC (verdict_sig signer1 0xAA True 9200)"
  have m: "onlyAuthorizedIssuer (by_at alice 1002) with_alice
      = Inl (Revert ''Not an authorized issuer'')"
    by (simp add: onlyAuthorizedIssuer_def by_at_def with_alice_def transact_def registerDID_def
        deployed_def constructor_def zeroDIDDocument_def checked_inc_def Let_def
        addresses_distinct)
  have r: "\<not> readsIssuerFlag ?cl" by simp
  have ok: "succeeds (exec toy_crypto (by_at alice 1002) with_alice ?cl)"
    by (simp add: succeeds_def record_alice)
  note T = issuer_flag_unused [where ?e1.0 = "by_at alice 1002" and ?s1.0 = with_alice
      and x = "Revert ''Not an authorized issuer''" and P = toy_crypto
      and ?e2.0 = "by_at alice 1002" and ?s2.0 = with_alice and cl = ?cl and f = "\<lambda>_. True"]
  from T m have a: "exec toy_crypto (by_at alice 1002) with_alice ?cl
      \<noteq> Inl (Revert ''Not an authorized issuer'')" by blast
  from T r ok have b: "succeeds (exec toy_crypto (by_at alice 1002)
      (with_alice\<lparr>authorizedIssuers := \<lambda>_. True\<rparr>) ?cl)" by blast
  show ?thesis using m a r b ok by blast
qed

subsection \<open>The administrator is an authorised issuer\<close>

lemma owner_authorized_exec:
  assumes "authorizedIssuers s (owner s)" and "exec P e s cl = Inr s'"
  shows "authorizedIssuers s' (owner s')"
  using assms
  by (cases cl)
    (auto simp: setOracleSigner_def registerDID_def updateDIDPublicKey_def deactivateDID_def
      recordVerification_def submitZKProof_def authorizeIssuer_def revokeIssuer_def
      transferOwnership_def Let_def checked_inc_def split: if_splits sum.splits)

lemma owner_authorized_transact:
  assumes "authorizedIssuers s (owner s)"
  shows "authorizedIssuers (transact P s tx) (owner (transact P s tx))"
proof (cases "exec P (fst tx) s (snd tx)")
  case (Inl f)
  then show ?thesis using assms by (simp add: transact_def)
next
  case (Inr s')
  then show ?thesis using owner_authorized_exec [OF assms Inr] by (simp add: transact_def)
qed

lemma owner_authorized_run:
  "authorizedIssuers s (owner s) \<Longrightarrow> authorizedIssuers (run P s txs) (owner (run P s txs))"
  by (induction txs arbitrary: s) (simp_all add: owner_authorized_transact)

lemma transferOwnership_effect:
  assumes "transferOwnership e s n = Inr s'"
  shows "s' = s\<lparr>authorizedIssuers := (authorizedIssuers s)(owner s := False, n := True),
                owner := n\<rparr>"
  using assms by (auto simp: transferOwnership_def Let_def split: if_splits)

text \<open>
  C6. In every state reached from the constructor by any sequence of transactions, the
  owner is an authorised issuer. The deployer is the owner and is authorised at
  construction; \<^verbatim>\<open>revokeIssuer\<close> fails whenever its target is the current owner;
  \<^verbatim>\<open>transferOwnership\<close> fails on the zero address, and when it succeeds the new owner is
  authorised and the old one (if another account) no longer is, in the same call; every
  transaction keeps \<open>authorizedIssuers[owner]\<close> true.
\<close>

theorem administrator_authorized:
  "authorizedIssuers (run P (constructor e0 sg0) txs) (owner (run P (constructor e0 sg0) txs))
   \<and> owner (constructor e0 sg0) = msg_sender e0
   \<and> authorizedIssuers (constructor e0 sg0) (msg_sender e0)
   \<and> \<not> succeeds (revokeIssuer e s (owner s))
   \<and> \<not> succeeds (transferOwnership e s 0)
   \<and> (transferOwnership e s n = Inr s' \<longrightarrow>
        owner s' = n \<and> authorizedIssuers s' n
        \<and> (n \<noteq> owner s \<longrightarrow> \<not> authorizedIssuers s' (owner s)))
   \<and> (authorizedIssuers s (owner s) \<longrightarrow>
        authorizedIssuers (transact P s tx) (owner (transact P s tx)))"
proof (intro conjI impI)
  have init: "authorizedIssuers (constructor e0 sg0) (owner (constructor e0 sg0))"
    by (simp add: constructor_def)
  show "authorizedIssuers (run P (constructor e0 sg0) txs) (owner (run P (constructor e0 sg0) txs))"
    by (rule owner_authorized_run [OF init])
  show "owner (constructor e0 sg0) = msg_sender e0"
    and "authorizedIssuers (constructor e0 sg0) (msg_sender e0)"
    by (simp_all add: constructor_def)
  show "\<not> succeeds (revokeIssuer e s (owner s))"
    by (simp add: revokeIssuer_def succeeds_def)
  show "\<not> succeeds (transferOwnership e s 0)"
    by (simp add: transferOwnership_def succeeds_def)
next
  assume t: "transferOwnership e s n = Inr s'"
  show "owner s' = n" and "authorizedIssuers s' n"
    by (simp_all add: transferOwnership_effect [OF t])
  show "\<not> authorizedIssuers s' (owner s)" if "n \<noteq> owner s"
    using that by (simp add: transferOwnership_effect [OF t])
next
  assume "authorizedIssuers s (owner s)"
  then show "authorizedIssuers (transact P s tx) (owner (transact P s tx))"
    by (rule owner_authorized_transact)
qed

theorem administrator_authorized_witness:
  "transferOwnership (by_at admin 1005) deployed alice
     = Inr (deployed\<lparr>authorizedIssuers := (authorizedIssuers deployed)(admin := False, alice := True),
                     owner := alice\<rparr>)
   \<and> owner (projr (transferOwnership (by_at admin 1005) deployed alice)) = alice
   \<and> authorizedIssuers (projr (transferOwnership (by_at admin 1005) deployed alice)) alice
   \<and> alice \<noteq> owner deployed
   \<and> \<not> authorizedIssuers (projr (transferOwnership (by_at admin 1005) deployed alice)) admin
   \<and> authorizedIssuers deployed (owner deployed)
   \<and> authorizedIssuers (transact toy_crypto deployed (by_at admin 1005, TransferOwnership alice))
        (owner (transact toy_crypto deployed (by_at admin 1005, TransferOwnership alice)))"
proof -
  let ?r = "transferOwnership (by_at admin 1005) deployed alice"
  have ok: "?r = Inr (deployed\<lparr>authorizedIssuers := (authorizedIssuers deployed)(admin := False, alice := True),
                     owner := alice\<rparr>)"
    by (simp add: transferOwnership_def by_at_def deployed_fields addresses_distinct Let_def)
  then have ok': "?r = Inr (projr ?r)" by simp
  have ne: "alice \<noteq> owner deployed" by (simp add: deployed_fields addresses_distinct)
  have inv: "authorizedIssuers deployed (owner deployed)" by (simp add: deployed_fields)
  note T = administrator_authorized [where e = "by_at admin 1005" and s = deployed and n = alice
      and s' = "projr ?r" and P = toy_crypto and tx = "(by_at admin 1005, TransferOwnership alice)"]
  from T ok' ne have a: "owner (projr ?r) = alice" "authorizedIssuers (projr ?r) alice"
    "\<not> authorizedIssuers (projr ?r) (owner deployed)" by blast+
  from T inv have b: "authorizedIssuers
      (transact toy_crypto deployed (by_at admin 1005, TransferOwnership alice))
      (owner (transact toy_crypto deployed (by_at admin 1005, TransferOwnership alice)))" by blast
  have od: "owner deployed = admin" by (simp add: deployed_fields)
  from a(3) have c: "\<not> authorizedIssuers (projr ?r) admin" unfolding od .
  show ?thesis using ok a(1,2) ne c inv b by blast
qed

subsection \<open>Recording twice for one content hash\<close>

lemma recorded_eq:
  "recorded = with_alice\<lparr>verificationResults := (verificationResults with_alice)(0xAA :=
        \<lparr>imageHash = 0xAA, subjectDid = ''did:x:9'', issuerDid = ''did:x:1'', isReal = True,
         confidence = 9200, timestamp = 1002, credentialHash = 0xCC\<rparr>),
        totalVerifications := 1\<rparr>"
  by (simp add: recorded_def transact_def record_alice)

lemma recorded_fields:
  "didDocuments recorded alice = \<lparr>doc_owner = alice, did = ''did:x:1'', publicKeyBase58 = ''k1'',
     isActive = True, createdAt = 1001, updatedAt = 1001\<rparr>"
  "oracleSigner recorded = signer1"
  "totalVerifications recorded = 1"
  "verificationResults recorded 0xAA = \<lparr>imageHash = 0xAA, subjectDid = ''did:x:9'',
     issuerDid = ''did:x:1'', isReal = True, confidence = 9200, timestamp = 1002,
     credentialHash = 0xCC\<rparr>"
  by (simp_all add: recorded_eq with_alice_fields)

lemma record_again:
  "recordVerification toy_crypto (by_at alice 1003) recorded 0xAA ''did:x:666'' True 9200 0xEE
     (verdict_sig signer1 0xAA True 9200)
   = Inr (recorded\<lparr>verificationResults := (verificationResults recorded)(0xAA :=
        \<lparr>imageHash = 0xAA, subjectDid = ''did:x:666'', issuerDid = ''did:x:1'', isReal = True,
         confidence = 9200, timestamp = 1003, credentialHash = 0xEE\<rparr>),
        totalVerifications := 2\<rparr>)"
  by (simp add: recordVerification_def verdict_sig_def toy_recover recorded_fields by_at_def
      checked_inc_def Let_def)

text \<open>
  C3, as stated, fails on the code: \<^verbatim>\<open>recordVerification\<close> never reads the record already
  stored under the content hash. Here content \<open>0xAA\<close> has a record; the same oracle
  signature is submitted again with another subject DID and credential hash (neither is
  covered by the signature); the call succeeds and the stored record is replaced.
\<close>

theorem second_record_overwrites_counterexample:
  "0 < timestamp (verificationResults recorded 0xAA)
   \<and> succeeds (recordVerification toy_crypto (by_at alice 1003) recorded 0xAA ''did:x:666'' True
        9200 0xEE (verdict_sig signer1 0xAA True 9200))
   \<and> verificationResults (projr (recordVerification toy_crypto (by_at alice 1003) recorded 0xAA
        ''did:x:666'' True 9200 0xEE (verdict_sig signer1 0xAA True 9200))) 0xAA
      \<noteq> verificationResults recorded 0xAA
   \<and> subjectDid (verificationResults recorded 0xAA) = ''did:x:9''
   \<and> subjectDid (verificationResults (projr (recordVerification toy_crypto (by_at alice 1003)
        recorded 0xAA ''did:x:666'' True 9200 0xEE (verdict_sig signer1 0xAA True 9200))) 0xAA)
      = ''did:x:666''"
  by (simp add: record_again succeeds_def recorded_fields)

lemma recordVerification_effect:
  assumes "recordVerification P e s h sd b c ch sg = Inr s'"
  shows "s' = s\<lparr>verificationResults := (verificationResults s)(h :=
             \<lparr>imageHash = h, subjectDid = sd, issuerDid = did (didDocuments s (msg_sender e)),
              isReal = b, confidence = c, timestamp = block_timestamp e, credentialHash = ch\<rparr>),
           totalVerifications := totalVerifications s + 1\<rparr>"
  using assms
  by (auto simp: recordVerification_def Let_def checked_inc_def split: if_splits sum.splits)

text \<open>
  C3, amended. A successful \<^verbatim>\<open>recordVerification\<close> stores the record of this call under
  the content hash, replacing whatever was stored there (the last writer wins), and leaves
  the records of all other hashes alone; whether the call succeeds does not depend on
  the records already stored.
\<close>

theorem record_replaces:
  "(recordVerification P e s h sd b c ch sg = Inr s' \<longrightarrow>
      verificationResults s' = (verificationResults s)(h :=
        \<lparr>imageHash = h, subjectDid = sd, issuerDid = did (didDocuments s (msg_sender e)),
         isReal = b, confidence = c, timestamp = block_timestamp e, credentialHash = ch\<rparr>))
   \<and> succeeds (recordVerification P e (s\<lparr>verificationResults := vr\<rparr>) h sd b c ch sg)
       = succeeds (recordVerification P e s h sd b c ch sg)"
proof (intro conjI impI)
  assume "recordVerification P e s h sd b c ch sg = Inr s'"
  from recordVerification_effect [OF this]
  show "verificationResults s' = (verificationResults s)(h :=
        \<lparr>imageHash = h, subjectDid = sd, issuerDid = did (didDocuments s (msg_sender e)),
         isReal = b, confidence = c, timestamp = block_timestamp e, credentialHash = ch\<rparr>)"
    by simp
next
  show "succeeds (recordVerification P e (s\<lparr>verificationResults := vr\<rparr>) h sd b c ch sg)
       = succeeds (recordVerification P e s h sd b c ch sg)"
    by (simp add: recordVerification_def succeeds_def Let_def checked_inc_def split: sum.splits)
qed

theorem record_replaces_witness:
  "recordVerification toy_crypto (by_at alice 1003) recorded 0xAA ''did:x:666'' True 9200 0xEE
     (verdict_sig signer1 0xAA True 9200)
   = Inr (recorded\<lparr>verificationResults := (verificationResults recorded)(0xAA :=
        \<lparr>imageHash = 0xAA, subjectDid = ''did:x:666'', issuerDid = ''did:x:1'', isReal = True,
         confidence = 9200, timestamp = 1003, credentialHash = 0xEE\<rparr>),
        totalVerifications := 2\<rparr>)
   \<and> verificationResults (recorded\<lparr>verificationResults := (verificationResults recorded)(0xAA :=
        \<lparr>imageHash = 0xAA, subjectDid = ''did:x:666'', issuerDid = ''did:x:1'', isReal = True,
         confidence = 9200, timestamp = 1003, credentialHash = 0xEE\<rparr>),
        totalVerifications := 2\<rparr>) 0xAA
     = \<lparr>imageHash = 0xAA, subjectDid = ''did:x:666'', issuerDid = ''did:x:1'', isReal = True,
         confidence = 9200, timestamp = 1003, credentialHash = 0xEE\<rparr>"
proof -
  from record_replaces [where P = toy_crypto and e = "by_at alice 1003" and s = recorded
      and h = "0xAA" and sd = "''did:x:666''" and b = True and c = 9200 and ch = "0xEE"
      and sg = "verdict_sig signer1 0xAA True 9200", THEN conjunct1, rule_format, OF record_again]
  have "verificationResults (recorded\<lparr>verificationResults := (verificationResults recorded)(0xAA :=
        \<lparr>imageHash = 0xAA, subjectDid = ''did:x:666'', issuerDid = ''did:x:1'', isReal = True,
         confidence = 9200, timestamp = 1003, credentialHash = 0xEE\<rparr>),
        totalVerifications := 2\<rparr>) 0xAA
     = \<lparr>imageHash = 0xAA, subjectDid = ''did:x:666'', issuerDid = did (didDocuments recorded alice),
         isReal = True, confidence = 9200, timestamp = 1003, credentialHash = 0xEE\<rparr>"
    by (simp add: by_at_def)
  then show ?thesis using record_again by (simp add: recorded_fields)
qed

subsection \<open>Registering again after deactivation\<close>

lemma deactivate_alice:
  "deactivateDID (by_at alice 1004) with_alice = Inr alice_gone"
  by (simp add: alice_gone_def transact_def deactivateDID_def with_alice_fields by_at_def)

lemma alice_gone_fields:
  "didDocuments alice_gone alice = \<lparr>doc_owner = alice, did = ''did:x:1'', publicKeyBase58 = ''k1'',
     isActive = False, createdAt = 1001, updatedAt = 1004\<rparr>"
  "didDocuments alice_gone bob = zeroDIDDocument"
  "didToAddress alice_gone ''did:x:1'' = 0"
  "didToAddress alice_gone ''did:x:2'' = 0"
  "totalDIDs alice_gone = 1"
  by (simp_all add: alice_gone_def transact_def deactivateDID_def with_alice_fields by_at_def Let_def
      with_alice_def registerDID_def deployed_def constructor_def checked_inc_def
      zeroDIDDocument_def addresses_distinct)

text \<open>
  C10. An account without an active document, in particular one that has deactivated its
  DID, can register again with an unbound, non-empty DID string and a non-empty key
  (while \<open>totalDIDs\<close> is below \<open>2\<^sup>2\<^sup>5\<^sup>6 - 1\<close>): the call succeeds and the account's
  document becomes the new one, with the new DID string, key and creation time, so
  nothing of the old document is kept. Until then the document of a deactivated account
  is the one it had, with \<open>isActive = False\<close> and the time of deactivation in
  \<open>updatedAt\<close>.
\<close>

theorem reregistration_replaces:
  assumes "\<not> isActive (didDocuments s (msg_sender e))"
    and "didToAddress s d = 0" and "d \<noteq> []" and "k \<noteq> []"
    and "totalDIDs s \<noteq> - 1"
  shows "registerDID e s d k
           = Inr (s\<lparr>didDocuments := (didDocuments s)(msg_sender e :=
                      \<lparr>doc_owner = msg_sender e, did = d, publicKeyBase58 = k, isActive = True,
                       createdAt = block_timestamp e, updatedAt = block_timestamp e\<rparr>),
                    didToAddress := (didToAddress s)(d := msg_sender e),
                    totalDIDs := totalDIDs s + 1\<rparr>)
       \<and> (deactivateDID e0 s0 = Inr s \<and> msg_sender e0 = msg_sender e \<longrightarrow>
            didDocuments s (msg_sender e)
              = (didDocuments s0 (msg_sender e))
                  \<lparr>isActive := False, updatedAt := block_timestamp e0\<rparr>)"
  using assms
  by (auto simp: deactivateDID_def registerDID_def Let_def checked_inc_def split: if_splits)

theorem reregistration_replaces_witness:
  "deactivateDID (by_at alice 1004) with_alice = Inr alice_gone
   \<and> didDocuments alice_gone alice
       = \<lparr>doc_owner = alice, did = ''did:x:1'', publicKeyBase58 = ''k1'', isActive = False,
          createdAt = 1001, updatedAt = 1004\<rparr>
   \<and> didToAddress alice_gone ''did:x:2'' = 0
   \<and> totalDIDs alice_gone \<noteq> - 1
   \<and> didDocuments (projr (registerDID (by_at alice 1005) alice_gone ''did:x:2'' ''k2'')) alice
       = \<lparr>doc_owner = alice, did = ''did:x:2'', publicKeyBase58 = ''k2'', isActive = True,
          createdAt = 1005, updatedAt = 1005\<rparr>"
proof -
  have h: "\<not> isActive (didDocuments alice_gone (msg_sender (by_at alice 1005)))"
    "didToAddress alice_gone ''did:x:2'' = 0" "''did:x:2'' \<noteq> []" "''k2'' \<noteq> []"
    "totalDIDs alice_gone \<noteq> - 1"
    by (simp_all add: by_at_def alice_gone_fields)
  have s: "msg_sender (by_at alice 1004) = msg_sender (by_at alice 1005)"
    by (simp add: by_at_def)
  note T = reregistration_replaces [OF h, where ?e0.0 = "by_at alice 1004"
      and ?s0.0 = with_alice]
  from T have a: "didDocuments (projr (registerDID (by_at alice 1005) alice_gone ''did:x:2''
      ''k2'')) alice
       = \<lparr>doc_owner = alice, did = ''did:x:2'', publicKeyBase58 = ''k2'', isActive = True,
          createdAt = 1005, updatedAt = 1005\<rparr>"
    by (simp add: by_at_def)
  from T deactivate_alice s
  have "didDocuments alice_gone (msg_sender (by_at alice 1005))
      = (didDocuments with_alice (msg_sender (by_at alice 1005)))
          \<lparr>isActive := False, updatedAt := block_timestamp (by_at alice 1004)\<rparr>"
    by blast
  then have b: "didDocuments alice_gone alice
       = \<lparr>doc_owner = alice, did = ''did:x:1'', publicKeyBase58 = ''k1'', isActive = False,
          createdAt = 1001, updatedAt = 1004\<rparr>"
    by (simp add: by_at_def with_alice_fields)
  show ?thesis using deactivate_alice b h(2,5) a by blast
qed

subsection \<open>The zero address as recovered signer\<close>

lemma horner_sum_zero_bytes: "horner_sum uint b (replicate n (0 :: byte)) = (0 :: int)"
  by (induction n) simp_all

lemma zero_sig_parts:
  "length zero_sig = 65" "sig_r zero_sig = 0" "sig_s zero_sig = 0" "sig_v zero_sig = 27"
  by (simp_all add: zero_sig_def sig_r_def sig_s_def sig_v_def word_rcat_def nth_append
      horner_sum_zero_bytes)

text \<open>
  C2 does not hold of the code. \<^verbatim>\<open>recoverSigner\<close> returns what \<^verbatim>\<open>ecrecover\<close> returns, and
  \<^verbatim>\<open>ecrecover\<close> returns the zero address for a signature it cannot recover from, such as
  one with \<open>r = 0\<close>: the 65-byte signature \<open>zero_sig\<close> makes \<^verbatim>\<open>recoverSigner\<close> return the
  zero address as an ordinary result. \<^verbatim>\<open>setOracleSigner\<close> rejects the zero address, the
  constructor does not; in a registry constructed with the zero address as signer,
  \<^verbatim>\<open>recordVerification\<close> accepts \<open>zero_sig\<close> for any verdict.
\<close>

theorem zero_address_accepted:
  assumes "ecrecover P (ethSignedHash P h b c) 27 0 0 = 0"
    and "isActive (didDocuments s (msg_sender e))"
    and "h \<noteq> 0" and "c \<le> 10000"
    and "oracleSigner s = 0"
    and "totalVerifications s \<noteq> - 1"
  shows "recoverSigner P (ethSignedHash P h b c) zero_sig = Inr 0
       \<and> succeeds (recordVerification P e s h sd b c ch zero_sig)"
  using assms
  by (simp add: recoverSigner_def recordVerification_def zero_sig_parts succeeds_def Let_def
      checked_inc_def)

lemma unsigned_registry_fields:
  "isActive (didDocuments unsigned_registry alice)"
  "oracleSigner unsigned_registry = 0"
  "totalVerifications unsigned_registry = 0"
  by (simp_all add: unsigned_registry_def transact_def registerDID_def constructor_def by_at_def
      zeroDIDDocument_def checked_inc_def Let_def addresses_distinct)

theorem zero_address_accepted_witness:
  "oracleSigner (constructor (by_at admin 1000) 0) = 0
   \<and> isActive (didDocuments unsigned_registry alice)
   \<and> recoverSigner toy_crypto (ethSignedHash toy_crypto 0xAA False 0) zero_sig = Inr 0
   \<and> succeeds (recordVerification toy_crypto (by_at alice 1002) unsigned_registry 0xAA ''did:x:9''
        False 0 0xCC zero_sig)"
proof -
  have h: "ecrecover toy_crypto (ethSignedHash toy_crypto 0xAA False 0) 27 0 0 = 0"
    "isActive (didDocuments unsigned_registry (msg_sender (by_at alice 1002)))"
    "(0xAA :: bytes32) \<noteq> 0" "(0 :: uint256) \<le> 10000"
    "oracleSigner unsigned_registry = 0" "totalVerifications unsigned_registry \<noteq> - 1"
    by (simp_all add: toy_crypto_def toy_ecrecover_def unsigned_registry_fields by_at_def)
  from zero_address_accepted [OF h] h(2)
  show ?thesis by (simp add: constructor_def by_at_def)
qed

subsection \<open>Authentication by the oracle's signature\<close>

text \<open>
  What holds of \<^verbatim>\<open>recordVerification\<close> for any primitives: under its other preconditions
  it succeeds exactly when \<^verbatim>\<open>recoverSigner\<close> returns the current oracle signer, and once
  \<^verbatim>\<open>setOracleSigner\<close> has changed the signer, a signature that recovered to the previous
  one is refused.
\<close>

lemma record_succeeds_iff:
  assumes "isActive (didDocuments s (msg_sender e))" and "h \<noteq> 0" and "unat c \<le> 10000"
    and "totalVerifications s \<noteq> - 1"
  shows "succeeds (recordVerification P e s h sd b c ch sg)
       \<longleftrightarrow> recoverSigner P (ethSignedHash P h b c) sg = Inr (oracleSigner s)"
  using assms
  by (auto simp: recordVerification_def succeeds_def Let_def checked_inc_def word_le_nat_alt
      split: sum.splits)

lemma record_wrong_signer:
  assumes "isActive (didDocuments s (msg_sender e))" and "h \<noteq> 0" and "unat c \<le> 10000"
    and "recoverSigner P (ethSignedHash P h b c) sg = Inr a" and "a \<noteq> oracleSigner s"
  shows "recordVerification P e s h sd b c ch sg = Inl (Revert ''Invalid oracle signature'')"
  using assms by (simp add: recordVerification_def word_le_nat_alt)

lemma setOracleSigner_effect:
  "setOracleSigner ea s new = Inr s2 \<Longrightarrow> s2 = s\<lparr>oracleSigner := new\<rparr>"
  by (auto simp: setOracleSigner_def split: if_splits)

lemma rotation_invalidates:
  assumes active: "isActive (didDocuments s (msg_sender e))"
    and h: "h \<noteq> 0" and c: "unat c \<le> 10000"
    and old: "recoverSigner P (ethSignedHash P h b c) sg = Inr (oracleSigner s)"
    and rot: "setOracleSigner ea s new = Inr s2" and ne: "new \<noteq> oracleSigner s"
  shows "recordVerification P e s2 h sd b c ch sg = Inl (Revert ''Invalid oracle signature'')"
proof -
  have s2: "s2 = s\<lparr>oracleSigner := new\<rparr>" by (rule setOracleSigner_effect [OF rot])
  have act2: "isActive (didDocuments s2 (msg_sender e))" using active by (simp add: s2)
  have "oracleSigner s \<noteq> oracleSigner s2" using ne by (auto simp: s2)
  with old show ?thesis by (rule record_wrong_signer [OF act2 h c])
qed

text \<open>
  C1 does not hold of the code. The acceptance test is as the claim says (the two lemmas
  above), but the consequence drawn from it, that a signature accepted for one verdict is
  refused once content hash, label or confidence is changed, fails in a registry whose
  oracle signer is the zero address, which the constructor accepts while
  \<^verbatim>\<open>setOracleSigner\<close> refuses it. There \<open>zero_sig\<close>, from which \<^verbatim>\<open>ecrecover\<close> recovers
  nothing and returns the zero address whatever the digest, recovers to the current
  signer: it is accepted for one verdict and, in the resulting state, for any other.
\<close>

theorem binding_lost_with_zero_signer:
  assumes r1: "ecrecover P (ethSignedHash P h b c) 27 0 0 = 0"
    and r2: "ecrecover P (ethSignedHash P h' b' c') 27 0 0 = 0"
    and active: "isActive (didDocuments s (msg_sender e))"
    and h: "h \<noteq> 0" "h' \<noteq> 0"
    and c: "unat c \<le> 10000" "unat c' \<le> 10000"
    and zero: "oracleSigner s = 0"
    and room: "totalVerifications s \<noteq> - 1" "totalVerifications s + 1 \<noteq> - 1"
  shows "recoverSigner P (ethSignedHash P h b c) zero_sig = Inr (oracleSigner s)
       \<and> (\<exists>s1. recordVerification P e s h sd b c ch zero_sig = Inr s1
              \<and> succeeds (recordVerification P e s1 h' sd' b' c' ch' zero_sig))"
proof -
  have rec1: "recoverSigner P (ethSignedHash P h b c) zero_sig = Inr (oracleSigner s)"
    using r1 zero by (simp add: recoverSigner_def zero_sig_parts)
  have "succeeds (recordVerification P e s h sd b c ch zero_sig)"
    using record_succeeds_iff [OF active h(1) c(1) room(1)] rec1 by simp
  then obtain s1 where ok: "recordVerification P e s h sd b c ch zero_sig = Inr s1"
    by (auto simp: succeeds_def split: sum.splits)
  note eff = recordVerification_effect [OF ok]
  have act1: "isActive (didDocuments s1 (msg_sender e))" using active by (simp add: eff)
  have zero1: "oracleSigner s1 = 0" using zero by (simp add: eff)
  have room1: "totalVerifications s1 \<noteq> - 1" using room(2) by (simp add: eff)
  have rec2: "recoverSigner P (ethSignedHash P h' b' c') zero_sig = Inr (oracleSigner s1)"
    using r2 zero1 by (simp add: recoverSigner_def zero_sig_parts)
  have "succeeds (recordVerification P e s1 h' sd' b' c' ch' zero_sig)"
    using record_succeeds_iff [OF act1 h(2) c(2) room1] rec2 by simp
  with rec1 ok show ?thesis by blast
qed

theorem binding_lost_with_zero_signer_witness:
  "oracleSigner (constructor (by_at admin 1000) 0) = 0
   \<and> isActive (didDocuments unsigned_registry alice)
   \<and> (0xAA :: bytes32, False, 0 :: uint256) \<noteq> (0xAA, True, 9300)
   \<and> recoverSigner toy_crypto (ethSignedHash toy_crypto 0xAA False 0) zero_sig
       = Inr (oracleSigner unsigned_registry)
   \<and> succeeds (recordVerification toy_crypto (by_at alice 1002) unsigned_registry 0xAA ''did:x:9''
        False 0 0xCC zero_sig)
   \<and> succeeds (recordVerification toy_crypto (by_at alice 1002)
        (projr (recordVerification toy_crypto (by_at alice 1002) unsigned_registry 0xAA
           ''did:x:9'' False 0 0xCC zero_sig))
        0xAA ''did:x:9'' True 9300 0xCC zero_sig)"
proof -
  have r: "ecrecover toy_crypto (ethSignedHash toy_crypto 0xAA False 0) 27 0 0 = 0"
    "ecrecover toy_crypto (ethSignedHash toy_crypto 0xAA True 9300) 27 0 0 = 0"
    by (simp_all add: toy_crypto_def toy_ecrecover_def)
  have act: "isActive (didDocuments unsigned_registry (msg_sender (by_at alice 1002)))"
    by (simp add: unsigned_registry_fields by_at_def)
  have h: "(0xAA :: bytes32) \<noteq> 0" by simp
  have c: "unat (0 :: uint256) \<le> 10000" "unat (9300 :: uint256) \<le> 10000" by simp_all
  have z: "oracleSigner unsigned_registry = 0" by (simp add: unsigned_registry_fields)
  have room: "totalVerifications unsigned_registry \<noteq> - 1"
    "totalVerifications unsigned_registry + 1 \<noteq> - 1"
    by (simp_all add: unsigned_registry_fields)
  from binding_lost_with_zero_signer [OF r act h h c z room, where sd = "''did:x:9''"
      and ch = "0xCC" and sd' = "''did:x:9''" and ch' = "0xCC"]
  obtain s1 where rec: "recoverSigner toy_crypto (ethSignedHash toy_crypto 0xAA False 0) zero_sig
        = Inr (oracleSigner unsigned_registry)"
    and ok: "recordVerification toy_crypto (by_at alice 1002) unsigned_registry 0xAA ''did:x:9''
        False 0 0xCC zero_sig = Inr s1"
    and again: "succeeds (recordVerification toy_crypto (by_at alice 1002) s1 0xAA ''did:x:9''
        True 9300 0xCC zero_sig)"
    by blast
  have first: "succeeds (recordVerification toy_crypto (by_at alice 1002) unsigned_registry 0xAA
      ''did:x:9'' False 0 0xCC zero_sig)"
    by (simp add: succeeds_def ok)
  have s1: "projr (recordVerification toy_crypto (by_at alice 1002) unsigned_registry 0xAA
      ''did:x:9'' False 0 0xCC zero_sig) = s1"
    by (simp add: ok)
  have o: "oracleSigner (constructor (by_at admin 1000) 0) = 0" by (simp add: constructor_def)
  have a: "isActive (didDocuments unsigned_registry alice)" by (simp add: unsigned_registry_fields)
  have ne: "(0xAA :: bytes32, False, 0 :: uint256) \<noteq> (0xAA, True, 9300)" by simp
  show ?thesis unfolding s1 using o a ne rec first again by blast
qed

subsection \<open>DID uniqueness\<close>

lemma registerDID_effect:
  assumes "registerDID e s d k = Inr s'"
  shows "s' = s\<lparr>didDocuments := (didDocuments s)(msg_sender e :=
                  \<lparr>doc_owner = msg_sender e, did = d, publicKeyBase58 = k, isActive = True,
                   createdAt = block_timestamp e, updatedAt = block_timestamp e\<rparr>),
                didToAddress := (didToAddress s)(d := msg_sender e),
                totalDIDs := totalDIDs s + 1\<rparr>"
    and "\<not> isActive (didDocuments s (msg_sender e))" and "didToAddress s d = 0" and "d \<noteq> []"
  using assms
  by (auto simp: registerDID_def Let_def checked_inc_def split: if_splits)

lemma deactivateDID_effect:
  assumes "deactivateDID e s = Inr s'"
  shows "s' = s\<lparr>didDocuments := (didDocuments s)(msg_sender e :=
                  (didDocuments s (msg_sender e))
                    \<lparr>isActive := False, updatedAt := block_timestamp e\<rparr>),
                didToAddress := (didToAddress s)(did (didDocuments s (msg_sender e)) := 0)\<rparr>"
    and "isActive (didDocuments s (msg_sender e))"
  using assms
  by (auto simp: deactivateDID_def Let_def split: if_splits)

lemma updateDIDPublicKey_effect:
  assumes "updateDIDPublicKey e s k = Inr s'"
  shows "s' = s\<lparr>didDocuments := (didDocuments s)(msg_sender e :=
                   (didDocuments s (msg_sender e))
                     \<lparr>publicKeyBase58 := k, updatedAt := block_timestamp e\<rparr>)\<rparr>"
    and "isActive (didDocuments s (msg_sender e))"
  using assms
  by (auto simp: updateDIDPublicKey_def split: if_splits)

lemma other_calls_keep_dids:
  assumes "exec P e s cl = Inr s'"
    and "\<forall>d k. cl \<noteq> RegisterDID d k" and "\<forall>k. cl \<noteq> UpdateDIDPublicKey k"
    and "cl \<noteq> DeactivateDID"
  shows "didDocuments s' = didDocuments s \<and> didToAddress s' = didToAddress s"
  using assms
  by (cases cl)
    (auto simp: setOracleSigner_def recordVerification_def submitZKProof_def authorizeIssuer_def
      revokeIssuer_def transferOwnership_def Let_def checked_inc_def
      split: if_splits sum.splits)

lemma index_consistent_constructor: "index_consistent (constructor e sg)"
  by (simp add: index_consistent_def constructor_def zeroDIDDocument_def)

lemma index_consistent_register:
  assumes inv: "index_consistent s" and nz: "msg_sender e \<noteq> 0"
    and ok: "registerDID e s d k = Inr s'"
  shows "index_consistent s'"
  unfolding index_consistent_def
proof (intro allI impI)
  fix a assume act: "isActive (didDocuments s' a)"
  note eff = registerDID_effect [OF ok]
  show "a \<noteq> 0 \<and> did (didDocuments s' a) \<noteq> [] \<and> didToAddress s' (did (didDocuments s' a)) = a"
  proof (cases "a = msg_sender e")
    case True
    then show ?thesis using nz eff(4) by (simp add: eff(1))
  next
    case False
    with act have old: "isActive (didDocuments s a)" by (simp add: eff(1))
    with inv have a: "a \<noteq> 0" "did (didDocuments s a) \<noteq> []"
      "didToAddress s (did (didDocuments s a)) = a"
      by (simp_all add: index_consistent_def)
    from a(1,3) eff(3) have "did (didDocuments s a) \<noteq> d" by auto
    with a False show ?thesis by (simp add: eff(1))
  qed
qed

lemma index_consistent_update:
  assumes inv: "index_consistent s" and ok: "updateDIDPublicKey e s k = Inr s'"
  shows "index_consistent s'"
  using inv unfolding index_consistent_def
  by (auto simp: updateDIDPublicKey_effect(1) [OF ok])

lemma index_consistent_deactivate:
  assumes inv: "index_consistent s" and ok: "deactivateDID e s = Inr s'"
  shows "index_consistent s'"
  unfolding index_consistent_def
proof (intro allI impI)
  fix a assume act: "isActive (didDocuments s' a)"
  note eff = deactivateDID_effect [OF ok]
  from act have ne: "a \<noteq> msg_sender e" by (auto simp: eff(1))
  with act have old: "isActive (didDocuments s a)" by (simp add: eff(1))
  with inv have a: "a \<noteq> 0" "did (didDocuments s a) \<noteq> []"
    "didToAddress s (did (didDocuments s a)) = a"
    by (simp_all add: index_consistent_def)
  from inv eff(2) have "didToAddress s (did (didDocuments s (msg_sender e))) = msg_sender e"
    by (simp add: index_consistent_def)
  with a(3) ne have "did (didDocuments s a) \<noteq> did (didDocuments s (msg_sender e))" by auto
  with a ne
  show "a \<noteq> 0 \<and> did (didDocuments s' a) \<noteq> [] \<and> didToAddress s' (did (didDocuments s' a)) = a"
    by (simp add: eff(1))
qed

lemma index_consistent_exec:
  assumes inv: "index_consistent s" and nz: "msg_sender e \<noteq> 0" and ok: "exec P e s cl = Inr s'"
  shows "index_consistent s'"
proof (cases cl)
  case (RegisterDID d k)
  with ok show ?thesis using index_consistent_register [OF inv nz] by simp
next
  case (UpdateDIDPublicKey k)
  with ok show ?thesis using index_consistent_update [OF inv] by simp
next
  case DeactivateDID
  with ok show ?thesis using index_consistent_deactivate [OF inv] by simp
qed (use inv other_calls_keep_dids [OF ok] in \<open>simp_all add: index_consistent_def\<close>)

lemma index_consistent_transact:
  assumes "index_consistent s" and "msg_sender (fst tx) \<noteq> 0"
  shows "index_consistent (transact P s tx)"
proof (cases "exec P (fst tx) s (snd tx)")
  case (Inl f)
  then show ?thesis using assms by (simp add: transact_def)
next
  case (Inr s')
  then show ?thesis using index_consistent_exec [OF assms Inr] by (simp add: transact_def)
qed

lemma index_consistent_run:
  "index_consistent s \<Longrightarrow> senders_nonzero txs \<Longrightarrow> index_consistent (run P s txs)"
  by (induction txs arbitrary: s) (simp_all add: senders_nonzero_def index_consistent_transact)

lemma active_did_kept_exec:
  assumes act: "isActive (didDocuments s a)"
    and nd: "\<not> (msg_sender e = a \<and> cl = DeactivateDID)"
    and ok: "exec P e s cl = Inr s'"
  shows "isActive (didDocuments s' a) \<and> did (didDocuments s' a) = did (didDocuments s a)"
proof (cases cl)
  case (RegisterDID d k)
  with ok have r: "registerDID e s d k = Inr s'" by simp
  from registerDID_effect(2) [OF r] act have "a \<noteq> msg_sender e" by auto
  with act show ?thesis by (simp add: registerDID_effect(1) [OF r])
next
  case (UpdateDIDPublicKey k)
  with ok have r: "updateDIDPublicKey e s k = Inr s'" by simp
  from act show ?thesis by (auto simp: updateDIDPublicKey_effect(1) [OF r])
next
  case DeactivateDID
  with ok have r: "deactivateDID e s = Inr s'" by simp
  from nd DeactivateDID have "a \<noteq> msg_sender e" by auto
  with act show ?thesis by (simp add: deactivateDID_effect(1) [OF r])
qed (use act other_calls_keep_dids [OF ok] in simp_all)

lemma active_did_kept_transact:
  assumes "isActive (didDocuments s a)"
    and "\<not> (msg_sender (fst tx) = a \<and> snd tx = DeactivateDID)"
  shows "isActive (didDocuments (transact P s tx) a)
       \<and> did (didDocuments (transact P s tx) a) = did (didDocuments s a)"
proof (cases "exec P (fst tx) s (snd tx)")
  case (Inl f)
  then show ?thesis using assms by (simp add: transact_def)
next
  case (Inr s')
  then show ?thesis using active_did_kept_exec [OF assms Inr] by (simp add: transact_def)
qed

lemma active_did_kept_run:
  "isActive (didDocuments s a) \<Longrightarrow> no_deactivation_by a txs \<Longrightarrow>
     isActive (didDocuments (run P s txs) a)
     \<and> did (didDocuments (run P s txs) a) = did (didDocuments s a)"
proof (induction txs arbitrary: s)
  case Nil
  then show ?case by simp
next
  case (Cons tx txs)
  from Cons.prems have nd: "\<not> (msg_sender (fst tx) = a \<and> snd tx = DeactivateDID)"
    and rest: "no_deactivation_by a txs"
    by (simp_all add: no_deactivation_by_def)
  from active_did_kept_transact [OF Cons.prems(1) nd, of P]
  have act: "isActive (didDocuments (transact P s tx) a)"
    and same: "did (didDocuments (transact P s tx) a) = did (didDocuments s a)" by simp_all
  from Cons.IH [OF act rest] same show ?case by simp
qed

lemma bound_did_taken:
  assumes inv: "index_consistent s" and act: "isActive (didDocuments s a)"
    and ne: "msg_sender e \<noteq> a"
  shows "\<not> succeeds (registerDID e s (did (didDocuments s a)) k)"
proof -
  from inv act have "didToAddress s (did (didDocuments s a)) = a" and "a \<noteq> 0"
    by (simp_all add: index_consistent_def)
  then show ?thesis by (simp add: registerDID_def succeeds_def)
qed

lemma second_registration_fails:
  "isActive (didDocuments t (msg_sender e)) \<Longrightarrow>
     registerDID e t d k = Inl (Revert ''DID already registered'')"
  by (simp add: registerDID_def)

lemma claim_after_deactivation:
  assumes inv: "index_consistent s" and act: "isActive (didDocuments s (msg_sender e))"
  shows "\<exists>s3. deactivateDID e s = Inr s3
           \<and> didToAddress s3 (did (didDocuments s (msg_sender e))) = 0
           \<and> didDocuments s3 (msg_sender e)
               = (didDocuments s (msg_sender e))\<lparr>isActive := False, updatedAt := block_timestamp e\<rparr>
           \<and> (\<not> isActive (didDocuments s3 (msg_sender eC)) \<and> kC \<noteq> [] \<and> totalDIDs s3 \<noteq> - 1 \<longrightarrow>
                (\<exists>s4. registerDID eC s3 (did (didDocuments s (msg_sender e))) kC = Inr s4
                   \<and> didToAddress s4 (did (didDocuments s (msg_sender e))) = msg_sender eC
                   \<and> isActive (didDocuments s4 (msg_sender eC))
                   \<and> did (didDocuments s4 (msg_sender eC)) = did (didDocuments s (msg_sender e))
                   \<and> (msg_sender eC \<noteq> msg_sender e \<longrightarrow>
                        didDocuments s4 (msg_sender e) = didDocuments s3 (msg_sender e))))"
proof -
  from inv act have ne: "did (didDocuments s (msg_sender e)) \<noteq> []"
    by (simp add: index_consistent_def)
  show ?thesis using act ne
    by (simp add: deactivateDID_def registerDID_def Let_def checked_inc_def)
qed

text \<open>
  C4. Take any state reached from the constructor by transactions of non-zero senders,
  and let account \<open>A\<close> (non-zero) register the DID string \<open>D\<close> there with success. After
  any further transactions among which \<open>A\<close> sends no \<^verbatim>\<open>deactivateDID\<close> (so that \<open>A\<close>'s
  document is still active): every \<^verbatim>\<open>registerDID\<close> of \<open>D\<close> by another account fails.
  In any state, an account whose document is active cannot register: the call fails
  with "DID already registered". When \<open>A\<close> then calls \<^verbatim>\<open>deactivateDID\<close>, the call
  succeeds, the reverse index entry of \<open>D\<close> is zero again, and \<open>A\<close>'s document is kept with
  \<open>isActive = False\<close>; an account without an active document can now register \<open>D\<close> with
  a non-empty key (while \<open>totalDIDs\<close> is below \<open>2\<^sup>2\<^sup>5\<^sup>6 - 1\<close>) and becomes the account
  the index names, and \<open>A\<close>'s inactive document is still stored after that.
\<close>

theorem did_uniqueness:
  assumes reach: "senders_nonzero txs"
    and reg: "registerDID eA (run P (constructor e0 sg0) txs) D k = Inr s1"
    and A0: "msg_sender eA \<noteq> 0"
    and later: "senders_nonzero txs'" "no_deactivation_by (msg_sender eA) txs'"
    and B: "msg_sender eB \<noteq> msg_sender eA"
    and A': "msg_sender eA' = msg_sender eA"
  shows "\<not> succeeds (registerDID eB (run P s1 txs') D kB)
       \<and> (isActive (didDocuments t (msg_sender e)) \<longrightarrow>
            registerDID e t D' k' = Inl (Revert ''DID already registered''))
       \<and> (\<exists>s3. deactivateDID eA' (run P s1 txs') = Inr s3
             \<and> didToAddress s3 D = 0
             \<and> didDocuments s3 (msg_sender eA)
                 = (didDocuments (run P s1 txs') (msg_sender eA))
                     \<lparr>isActive := False, updatedAt := block_timestamp eA'\<rparr>
             \<and> did (didDocuments s3 (msg_sender eA)) = D
             \<and> (\<not> isActive (didDocuments s3 (msg_sender eC)) \<and> kC \<noteq> [] \<and> totalDIDs s3 \<noteq> - 1 \<longrightarrow>
                  (\<exists>s4. registerDID eC s3 D kC = Inr s4
                     \<and> didToAddress s4 D = msg_sender eC
                     \<and> isActive (didDocuments s4 (msg_sender eC))
                     \<and> did (didDocuments s4 (msg_sender eC)) = D
                     \<and> (msg_sender eC \<noteq> msg_sender eA \<longrightarrow>
                          didDocuments s4 (msg_sender eA) = didDocuments s3 (msg_sender eA)))))"
proof -
  let ?s = "run P (constructor e0 sg0) txs" and ?s2 = "run P s1 txs'" and ?A = "msg_sender eA"
  have inv: "index_consistent ?s"
    by (rule index_consistent_run [OF index_consistent_constructor reach])
  have inv1: "index_consistent s1"
    by (rule index_consistent_register [OF inv A0 reg])
  have inv2: "index_consistent ?s2"
    by (rule index_consistent_run [OF inv1 later(1)])
  have act1: "isActive (didDocuments s1 ?A)" and did1: "did (didDocuments s1 ?A) = D"
    by (simp_all add: registerDID_effect(1) [OF reg])
  from active_did_kept_run [OF act1 later(2), of P] did1
  have act2: "isActive (didDocuments ?s2 ?A)" and did2: "did (didDocuments ?s2 ?A) = D"
    by simp_all
  have u: "\<not> succeeds (registerDID eB ?s2 D kB)"
    using bound_did_taken [OF inv2 act2 B] by (simp add: did2)
  have act2': "isActive (didDocuments ?s2 (msg_sender eA'))" using act2 by (simp add: A')
  from claim_after_deactivation [OF inv2 act2', of eC kC]
  have d: "\<exists>s3. deactivateDID eA' ?s2 = Inr s3
             \<and> didToAddress s3 D = 0
             \<and> didDocuments s3 ?A
                 = (didDocuments ?s2 ?A)\<lparr>isActive := False, updatedAt := block_timestamp eA'\<rparr>
             \<and> did (didDocuments s3 ?A) = D
             \<and> (\<not> isActive (didDocuments s3 (msg_sender eC)) \<and> kC \<noteq> [] \<and> totalDIDs s3 \<noteq> - 1 \<longrightarrow>
                  (\<exists>s4. registerDID eC s3 D kC = Inr s4
                     \<and> didToAddress s4 D = msg_sender eC
                     \<and> isActive (didDocuments s4 (msg_sender eC))
                     \<and> did (didDocuments s4 (msg_sender eC)) = D
                     \<and> (msg_sender eC \<noteq> ?A \<longrightarrow>
                          didDocuments s4 ?A = didDocuments s3 ?A)))"
    unfolding A' did2 by (auto simp: did2)
  show ?thesis using u second_registration_fails d by blast
qed

lemma alice_rekeyed_fields:
  "didDocuments alice_rekeyed alice = \<lparr>doc_owner = alice, did = ''did:x:1'',
     publicKeyBase58 = ''k9'', isActive = True, createdAt = 1001, updatedAt = 1002\<rparr>"
  "didDocuments alice_rekeyed bob = zeroDIDDocument"
  "totalDIDs alice_rekeyed = 1"
  by (simp_all add: alice_rekeyed_def transact_def updateDIDPublicKey_def with_alice_fields
      by_at_def addresses_distinct)

theorem did_uniqueness_witness:
  "senders_nonzero []
   \<and> registerDID (by_at alice 1001) (run toy_crypto (constructor (by_at admin 1000) signer1) [])
        ''did:x:1'' ''k1'' = Inr with_alice
   \<and> senders_nonzero [(by_at alice 1002, UpdateDIDPublicKey ''k9'')]
   \<and> no_deactivation_by alice [(by_at alice 1002, UpdateDIDPublicKey ''k9'')]
   \<and> \<not> succeeds (registerDID (by_at bob 1003) alice_rekeyed ''did:x:1'' ''kb'')
   \<and> isActive (didDocuments with_alice alice)
   \<and> registerDID (by_at alice 1002) with_alice ''did:x:2'' ''k2''
       = Inl (Revert ''DID already registered'')
   \<and> succeeds (deactivateDID (by_at alice 1004) alice_rekeyed)
   \<and> didToAddress (projr (deactivateDID (by_at alice 1004) alice_rekeyed)) ''did:x:1'' = 0
   \<and> \<not> isActive (didDocuments (projr (deactivateDID (by_at alice 1004) alice_rekeyed)) alice)
   \<and> did (didDocuments (projr (deactivateDID (by_at alice 1004) alice_rekeyed)) alice) = ''did:x:1''
   \<and> succeeds (registerDID (by_at bob 1005) (projr (deactivateDID (by_at alice 1004) alice_rekeyed))
        ''did:x:1'' ''kb'')"
proof -
  let ?txs' = "[(by_at alice 1002, UpdateDIDPublicKey ''k9'')]"
  have h1: "senders_nonzero []" by (simp add: senders_nonzero_def)
  have h2: "registerDID (by_at alice 1001) (run toy_crypto (constructor (by_at admin 1000) signer1) [])
        ''did:x:1'' ''k1'' = Inr with_alice"
    using register_alice by (simp add: deployed_def)
  have h3: "msg_sender (by_at alice 1001) \<noteq> 0" by (simp add: by_at_def addresses_distinct)
  have h4: "senders_nonzero ?txs'" by (simp add: senders_nonzero_def by_at_def addresses_distinct)
  have h5: "no_deactivation_by (msg_sender (by_at alice 1001)) ?txs'"
    by (simp add: no_deactivation_by_def)
  have h6: "msg_sender (by_at bob 1003) \<noteq> msg_sender (by_at alice 1001)"
    by (simp add: by_at_def addresses_distinct)
  have h7: "msg_sender (by_at alice 1004) = msg_sender (by_at alice 1001)"
    by (simp add: by_at_def)
  have act: "isActive (didDocuments with_alice (msg_sender (by_at alice 1002)))"
    by (simp add: by_at_def with_alice_fields)
  note T = did_uniqueness [OF h1 h2 h3 h4 h5 h6 h7, where kB = "''kb''" and t = with_alice
      and e = "by_at alice 1002" and D' = "''did:x:2''" and k' = "''k2''"
      and eC = "by_at bob 1005" and kC = "''kb''", folded alice_rekeyed_def]
  from T have a: "\<not> succeeds (registerDID (by_at bob 1003) alice_rekeyed ''did:x:1'' ''kb'')"
    by blast
  from T act have b: "registerDID (by_at alice 1002) with_alice ''did:x:2'' ''k2''
      = Inl (Revert ''DID already registered'')" by blast
  from T obtain s3 where d: "deactivateDID (by_at alice 1004) alice_rekeyed = Inr s3"
    and i: "didToAddress s3 ''did:x:1'' = 0"
    and doc: "didDocuments s3 (msg_sender (by_at alice 1001))
        = (didDocuments alice_rekeyed (msg_sender (by_at alice 1001)))
            \<lparr>isActive := False, updatedAt := block_timestamp (by_at alice 1004)\<rparr>"
    and nm: "did (didDocuments s3 (msg_sender (by_at alice 1001))) = ''did:x:1''"
    and c: "\<not> isActive (didDocuments s3 (msg_sender (by_at bob 1005))) \<and> ''kb'' \<noteq> []
          \<and> totalDIDs s3 \<noteq> - 1 \<longrightarrow>
        (\<exists>s4. registerDID (by_at bob 1005) s3 ''did:x:1'' ''kb'' = Inr s4)"
    by blast
  have s3: "projr (deactivateDID (by_at alice 1004) alice_rekeyed) = s3" by (simp add: d)
  have pre: "\<not> isActive (didDocuments s3 (msg_sender (by_at bob 1005)))" "totalDIDs s3 \<noteq> - 1"
    by (simp_all add: deactivateDID_effect(1) [OF d] by_at_def alice_rekeyed_fields
        addresses_distinct zeroDIDDocument_def)
  with c obtain s4 where r: "registerDID (by_at bob 1005) s3 ''did:x:1'' ''kb'' = Inr s4"
    by auto
  have e: "succeeds (deactivateDID (by_at alice 1004) alice_rekeyed)"
    and f: "succeeds (registerDID (by_at bob 1005) s3 ''did:x:1'' ''kb'')"
    by (simp_all add: succeeds_def d r)
  have g: "\<not> isActive (didDocuments s3 alice)" using doc by (simp add: by_at_def)
  have nm': "did (didDocuments s3 alice) = ''did:x:1''" using nm by (simp add: by_at_def)
  have act': "isActive (didDocuments with_alice alice)" by (simp add: with_alice_fields)
  show ?thesis unfolding s3 using h1 h2 h4 h5 [unfolded by_at_def, simplified] a act' b e i g nm' f
    by (simp add: by_at_def)
qed

end
